theory Spec2Isabelle
  imports Complex_Main "HOL-Library.Word"
begin

section \<open>Post-processing of instance segmentations: shared data model\<close>

text \<open>
  The development follows \<^verbatim>\<open>data/post_processing/post_processing.py\<close>.
  Python integers are \<^typ>\<open>int\<close>, probabilities and thresholds are \<^typ>\<open>real\<close>
  (exact arithmetic; rounding of binary floating point is not part of the model),
  and every exception the modelled code can raise is a value of \<open>py_error\<close>.
\<close>

datatype py_error = ValueError | UnboundLocalError | IndexError | ZeroDivisionError | KeyError

text \<open>Sequencing of computations that may raise.\<close>

definition bind_err :: "py_error + 'a \<Rightarrow> ('a \<Rightarrow> py_error + 'b) \<Rightarrow> py_error + 'b" where
  "bind_err m f = (case m of Inl e \<Rightarrow> Inl e | Inr x \<Rightarrow> f x)"

text \<open>Reading \<^verbatim>\<open>xs[i]\<close>: indices below zero are taken from the end of the list.\<close>

definition py_index :: "'a list \<Rightarrow> int \<Rightarrow> py_error + 'a" where
  "py_index xs i =
     (if 0 \<le> i \<and> i < int (length xs) then Inr (xs ! nat i)
      else if i < 0 \<and> - int (length xs) \<le> i then Inr (xs ! nat (int (length xs) + i))
      else Inl IndexError)"

text \<open>\<^verbatim>\<open>sys.maxsize\<close> on a 64-bit interpreter.\<close>

definition maxsize :: int where
  "maxsize = 9223372036854775807"

section \<open>\<^verbatim>\<open>watershed_by_channels\<close>: choice of the output dtype\<close>

datatype dtype = UInt8 | UInt16 | UInt32

definition dtype_bits :: "dtype \<Rightarrow> nat" where
  "dtype_bits t = (case t of UInt8 \<Rightarrow> 8 | UInt16 \<Rightarrow> 16 | UInt32 \<Rightarrow> 32)"

text \<open>The largest value a dtype stores (\<^verbatim>\<open>np.iinfo(t).max\<close>).\<close>

definition dtype_max :: "dtype \<Rightarrow> int" where
  "dtype_max t = 2 ^ dtype_bits t - 1"

text \<open>
  \<^verbatim>\<open>
  max_value = np.max(segm)
  if max_value < 255:     segm = segm.astype(np.uint8)
  elif max_value < 65535: segm = segm.astype(np.uint16)
  else:                   segm = segm.astype(np.uint32)
  \<close>
\<close>

definition choose_dtype :: "int \<Rightarrow> dtype" where
  "choose_dtype max_value =
     (if max_value < 255 then UInt8
      else if max_value < 65535 then UInt16
      else UInt32)"

text \<open>\<^verbatim>\<open>astype\<close> to an unsigned type keeps the value modulo \<open>2 ^ bits\<close>.\<close>

definition astype :: "dtype \<Rightarrow> int list \<Rightarrow> int list" where
  "astype t segm = map (\<lambda>v. v mod 2 ^ dtype_bits t) segm"

text \<open>\<^verbatim>\<open>np.max\<close> of an empty array raises \<^verbatim>\<open>ValueError\<close>.\<close>

definition np_max :: "int list \<Rightarrow> py_error + int" where
  "np_max segm = (if segm = [] then Inl ValueError else Inr (Max (set segm)))"

definition cast_segm :: "int list \<Rightarrow> py_error + (dtype \<times> int list)" where
  "cast_segm segm =
     bind_err (np_max segm) (\<lambda>max_value.
       let t = choose_dtype max_value in Inr (t, astype t segm))"

text \<open>The smallest of the three widths that represents a given maximum label.\<close>

definition smallest_dtype :: "int \<Rightarrow> dtype" where
  "smallest_dtype max_value =
     (if max_value \<le> dtype_max UInt8 then UInt8
      else if max_value \<le> dtype_max UInt16 then UInt16
      else UInt32)"

section \<open>\<^verbatim>\<open>calculate_optimal_mw_thresholds\<close>: the per-sample threshold searches\<close>

text \<open>
  The image operations of a sweep (prediction, thresholding, connected-component labelling,
  removal of small objects, Jaccard index) belong to external libraries. A sweep only
  consumes, for the candidate at grid position \<open>k\<close>, the resulting number of distinct values
  \<^verbatim>\<open>obj_count = len(np.unique(p))\<close> or the Jaccard score, so a sample carries these as
  functions of the grid position.
\<close>

subsection \<open>TH2 sweep\<close>

record th2_vars =
  th2_min :: real
  th2_last :: int
  th2_repeat_count :: int
  th2_op_pos :: int
  th2_obj_min_diff :: int
  l_th2 :: "int list"

definition th2_init :: th2_vars where
  "th2_init = \<lparr>th2_min = 0, th2_last = 0, th2_repeat_count = 0, th2_op_pos = - 1,
                th2_obj_min_diff = maxsize, l_th2 = []\<rparr>"

text \<open>
  One iteration of \<^verbatim>\<open>for k in range(len(ths))\<close> of the TH2 block:
  \<^verbatim>\<open>
  l_th2.append(obj_count)
  if abs(obj_count-len(labels)) < th2_obj_min_diff:
      th2_obj_min_diff = abs(obj_count-len(labels))
      th2_min = ths[k]
      th2_op_pos = k
      th2_repeat_count = 0
  if th2_obj_min_diff == th2_last: th2_repeat_count += 1
  th2_last = abs(obj_count-len(labels))
  \<close>
\<close>

definition th2_body :: "real list \<Rightarrow> int \<Rightarrow> (nat \<Rightarrow> int) \<Rightarrow> th2_vars \<Rightarrow> nat \<Rightarrow> th2_vars" where
  "th2_body ths n_labels obj_count_at s k =
     (let obj_count = obj_count_at k;
          s1 = s\<lparr>l_th2 := l_th2 s @ [obj_count]\<rparr>;
          s2 = (if \<bar>obj_count - n_labels\<bar> < th2_obj_min_diff s1
                then s1\<lparr>th2_obj_min_diff := \<bar>obj_count - n_labels\<bar>,
                        th2_min := ths ! k,
                        th2_op_pos := int k,
                        th2_repeat_count := 0\<rparr>
                else s1);
          s3 = (if th2_obj_min_diff s2 = th2_last s2
                then s2\<lparr>th2_repeat_count := th2_repeat_count s2 + 1\<rparr>
                else s2)
      in s3\<lparr>th2_last := \<bar>obj_count - n_labels\<bar>\<rparr>)"

text \<open>The variables after the first \<open>m\<close> candidates have been visited.\<close>

definition th2_loop :: "real list \<Rightarrow> int \<Rightarrow> (nat \<Rightarrow> int) \<Rightarrow> nat \<Rightarrow> th2_vars" where
  "th2_loop ths n_labels obj_count_at m =
     foldl (th2_body ths n_labels obj_count_at) th2_init [0..<m]"

text \<open>
  \<^verbatim>\<open>
  th2_opt_pos = th2_op_pos + int(th2_repeat_count/2) if th2_repeat_count < 10 else th2_op_pos + 2
  if th2_opt_pos >= len(ths): th2_opt_pos = len(ths)-1
  \<close>
  The counter is never negative, so \<^verbatim>\<open>int(x/2)\<close> is \<open>x div 2\<close>.
\<close>

definition th2_opt_pos :: "real list \<Rightarrow> th2_vars \<Rightarrow> int" where
  "th2_opt_pos ths s =
     (let p = (if th2_repeat_count s < 10 then th2_op_pos s + th2_repeat_count s div 2
               else th2_op_pos s + 2)
      in if p \<ge> int (length ths) then int (length ths) - 1 else p)"

text \<open>The whole TH2 block: the final variables and \<^verbatim>\<open>ths[th2_opt_pos]\<close>.\<close>

definition th2_search :: "real list \<Rightarrow> int \<Rightarrow> (nat \<Rightarrow> int) \<Rightarrow> py_error + (th2_vars \<times> real)" where
  "th2_search ths n_labels obj_count_at =
     (let s = th2_loop ths n_labels obj_count_at (length ths)
      in bind_err (py_index ths (th2_opt_pos ths s)) (\<lambda>opt. Inr (s, opt)))"



subsection \<open>TH1 and TH4 sweeps\<close>

text \<open>
  The TH1 block and the TH4 block are the same statements over different grids
  (\<^verbatim>\<open>ths\<close> and \<^verbatim>\<open>ths_dis\<close>) and different object counts. The flag \<^verbatim>\<open>in_row\<close> is
  initialised before the TH1 loop only, so the TH4 loop starts with the value TH1 left.
\<close>

record th1_vars =
  th1_min :: real
  th1_last :: int
  th1_repeat_count :: int
  th1_op_pos :: int
  th1_obj_min_diff :: int
  l_th1 :: "int list"
  in_row :: bool

definition th1_init :: "bool \<Rightarrow> th1_vars" where
  "th1_init in_row0 = \<lparr>th1_min = 0, th1_last = 0, th1_repeat_count = 0, th1_op_pos = - 1,
                        th1_obj_min_diff = maxsize, l_th1 = [], in_row = in_row0\<rparr>"

text \<open>
  \<^verbatim>\<open>
  l_th1.append(obj_count)
  diff = abs(obj_count-len(labels))
  if diff <= th1_obj_min_diff and th1_repeat_count < 4 and diff != th1_last:
      th1_obj_min_diff = diff
      th1_min = ths[k]
      th1_op_pos = k
      th1_repeat_count = 0
      in_row = True
  if diff == th1_last and diff == th1_obj_min_diff and in_row:
      th1_repeat_count += 1
  elif k != th1_op_pos:
      in_row = False
  th1_last = diff
  \<close>
\<close>

definition th1_accepts :: "th1_vars \<Rightarrow> int \<Rightarrow> bool" where
  "th1_accepts s diff \<longleftrightarrow>
     diff \<le> th1_obj_min_diff s \<and> th1_repeat_count s < 4 \<and> diff \<noteq> th1_last s"

definition th1_body :: "real list \<Rightarrow> int \<Rightarrow> (nat \<Rightarrow> int) \<Rightarrow> th1_vars \<Rightarrow> nat \<Rightarrow> th1_vars" where
  "th1_body ths n_labels obj_count_at s k =
     (let obj_count = obj_count_at k;
          s1 = s\<lparr>l_th1 := l_th1 s @ [obj_count]\<rparr>;
          diff = \<bar>obj_count - n_labels\<bar>;
          s2 = (if th1_accepts s1 diff
                then s1\<lparr>th1_obj_min_diff := diff,
                        th1_min := ths ! k,
                        th1_op_pos := int k,
                        th1_repeat_count := 0,
                        in_row := True\<rparr>
                else s1);
          s3 = (if diff = th1_last s2 \<and> diff = th1_obj_min_diff s2 \<and> in_row s2
                then s2\<lparr>th1_repeat_count := th1_repeat_count s2 + 1\<rparr>
                else if int k \<noteq> th1_op_pos s2 then s2\<lparr>in_row := False\<rparr>
                else s2)
      in s3\<lparr>th1_last := diff\<rparr>)"

definition th1_loop :: "bool \<Rightarrow> real list \<Rightarrow> int \<Rightarrow> (nat \<Rightarrow> int) \<Rightarrow> nat \<Rightarrow> th1_vars" where
  "th1_loop in_row0 ths n_labels obj_count_at m =
     foldl (th1_body ths n_labels obj_count_at) (th1_init in_row0) [0..<m]"

text \<open>
  \<^verbatim>\<open>
  th1_opt_pos = th1_op_pos + th1_repeat_count
  if th1_opt_pos >= len(ths): th1_opt_pos = len(ths)-1
  \<close>
\<close>

definition th1_opt_pos :: "real list \<Rightarrow> th1_vars \<Rightarrow> int" where
  "th1_opt_pos ths s =
     (let p = th1_op_pos s + th1_repeat_count s
      in if p \<ge> int (length ths) then int (length ths) - 1 else p)"

definition th1_search ::
  "bool \<Rightarrow> real list \<Rightarrow> int \<Rightarrow> (nat \<Rightarrow> int) \<Rightarrow> py_error + (th1_vars \<times> real)" where
  "th1_search in_row0 ths n_labels obj_count_at =
     (let s = th1_loop in_row0 ths n_labels obj_count_at (length ths)
      in bind_err (py_index ths (th1_opt_pos ths s)) (\<lambda>opt. Inr (s, opt)))"

text \<open>Invariant of the TH1/TH4 sweep after candidate \<open>m\<close> has been visited.\<close>

definition same_diff :: "int \<Rightarrow> (nat \<Rightarrow> int) \<Rightarrow> nat \<Rightarrow> nat \<Rightarrow> bool" where
  "same_diff nl cnt op r \<longleftrightarrow>
     (\<forall>j. op \<le> j \<and> j \<le> op + r \<longrightarrow> \<bar>cnt j - nl\<bar> = \<bar>cnt op - nl\<bar>)"

definition th1_run ::
  "real list \<Rightarrow> int \<Rightarrow> (nat \<Rightarrow> int) \<Rightarrow> nat \<Rightarrow> th1_vars \<Rightarrow> nat \<Rightarrow> nat \<Rightarrow> bool" where
  "th1_run ths nl cnt m s op r \<longleftrightarrow>
     th1_op_pos s = int op \<and> th1_repeat_count s = int r \<and> op + r \<le> m
     \<and> th1_obj_min_diff s = \<bar>cnt op - nl\<bar> \<and> th1_min s = ths ! op
     \<and> same_diff nl cnt op r
     \<and> (if in_row s then op + r = m
         else op + r < m \<and> \<bar>cnt (Suc (op + r)) - nl\<bar> \<noteq> \<bar>cnt op - nl\<bar>)"

definition th1_none :: "th1_vars \<Rightarrow> bool" where
  "th1_none s \<longleftrightarrow>
     th1_op_pos s = - 1 \<and> th1_repeat_count s = 0 \<and> \<not> in_row s \<and> th1_min s = 0"

definition th1_inv :: "real list \<Rightarrow> int \<Rightarrow> (nat \<Rightarrow> int) \<Rightarrow> nat \<Rightarrow> th1_vars \<Rightarrow> bool" where
  "th1_inv ths nl cnt m s \<longleftrightarrow>
     th1_last s = \<bar>cnt m - nl\<bar> \<and> (th1_none s \<or> (\<exists>op r. th1_run ths nl cnt m s op r))"

subsection \<open>TH3 and TH5 sweeps\<close>

text \<open>
  \<^verbatim>\<open>
  th3_best = -1
  th3_max_jac = -1
  l_th3 = []
  for j in range(len(ths)):
      jac = jaccard_index_numpy(...)
      if jac > th3_max_jac:
          th3_max_jac = jac
          th3_best = ths[j]
      l_th3.append(jac)
  \<close>
  The TH5 block is the same over \<^verbatim>\<open>ths_dis\<close>.
\<close>

record th3_vars =
  th3_best :: real
  th3_max_jac :: real
  l_th3 :: "real list"

definition th3_body :: "real list \<Rightarrow> (nat \<Rightarrow> real) \<Rightarrow> th3_vars \<Rightarrow> nat \<Rightarrow> th3_vars" where
  "th3_body ths jac_at s j =
     (let jac = jac_at j;
          s1 = (if jac > th3_max_jac s then s\<lparr>th3_max_jac := jac, th3_best := ths ! j\<rparr> else s)
      in s1\<lparr>l_th3 := l_th3 s1 @ [jac]\<rparr>)"

definition th3_search :: "real list \<Rightarrow> (nat \<Rightarrow> real) \<Rightarrow> th3_vars" where
  "th3_search ths jac_at =
     foldl (th3_body ths jac_at) \<lparr>th3_best = - 1, th3_max_jac = - 1, l_th3 = []\<rparr> [0..<length ths]"

subsection \<open>The loop over the patches of the validation samples\<close>

text \<open>
  The candidate grid:
  \<^verbatim>\<open>
  ths = [1e-06, 5e-06, 1e-05, 5e-05, 1e-04, 5e-04, 1e-03, 5e-03, 1e-02, 5e-02]
  ths.extend(np.round(np.arange(0.1, 1.0, 0.05),3))
  \<close>
\<close>

definition mw_ths :: "real list" where
  "mw_ths = [1/1000000, 5/1000000, 1/100000, 5/100000, 1/10000, 5/10000, 1/1000, 5/1000,
             1/100, 5/100,
             10/100, 15/100, 20/100, 25/100, 30/100, 35/100, 40/100, 45/100, 50/100,
             55/100, 60/100, 65/100, 70/100, 75/100, 80/100, 85/100, 90/100, 95/100]"

datatype calib_mode = Calib_BC | Calib_BCD

text \<open>
  A patch as the searches see it: \<^verbatim>\<open>len(np.unique(mask))\<close>, the Jaccard score of each
  TH3 (TH5) candidate, and the object count of each TH2, TH1 (TH4) candidate; the TH2 counts
  depend on the chosen \<^verbatim>\<open>th3_best\<close>, the TH1 and TH4 counts on \<^verbatim>\<open>th2_min\<close>.
\<close>

record patch =
  n_labels :: int
  jac_th3 :: "nat \<Rightarrow> real"
  jac_th5 :: "nat \<Rightarrow> real"
  objs_th2 :: "real \<Rightarrow> nat \<Rightarrow> int"
  objs_th1 :: "real \<Rightarrow> nat \<Rightarrow> int"
  objs_th4 :: "real \<Rightarrow> nat \<Rightarrow> int"

record calib_lists =
  g_l_th1 :: "int list list"
  l_th1_min :: "real list"
  l_th1_opt :: "real list"
  g_l_th2 :: "int list list"
  l_th2_min :: "real list"
  l_th2_opt :: "real list"
  ideal_number_obj :: "int list"
  g_l_th3 :: "real list list"
  l_th3_max :: "real list"
  g_l_th4 :: "int list list"
  l_th4_min :: "real list"
  l_th4_opt :: "real list"
  g_l_th5 :: "real list list"
  l_th5_max :: "real list"

text \<open>The \<^verbatim>\<open>else\<close> branch of the patch loop: all searches of a patch with objects.\<close>

definition search_patch ::
  "calib_mode \<Rightarrow> real list \<Rightarrow> real list \<Rightarrow> calib_lists \<Rightarrow> patch \<Rightarrow> py_error + calib_lists" where
  "search_patch mode ths ths_dis st p =
     (let v3 = th3_search ths (jac_th3 p);
          st1 = st\<lparr>l_th3_max := l_th3_max st @ [th3_best v3],
                   g_l_th3 := g_l_th3 st @ [l_th3 v3]\<rparr>;
          st2 = (if mode = Calib_BCD
                 then (let v5 = th3_search ths_dis (jac_th5 p)
                       in st1\<lparr>l_th5_max := l_th5_max st1 @ [th3_best v5],
                               g_l_th5 := g_l_th5 st1 @ [l_th3 v5]\<rparr>)
                 else st1)
      in bind_err (th2_search ths (n_labels p) (objs_th2 p (th3_best v3))) (\<lambda>(v2, th2_opt).
         let st3 = st2\<lparr>g_l_th2 := g_l_th2 st2 @ [l_th2 v2],
                       l_th2_min := l_th2_min st2 @ [th2_min v2],
                       l_th2_opt := l_th2_opt st2 @ [th2_opt]\<rparr>
         in bind_err (th1_search False ths (n_labels p) (objs_th1 p (th2_min v2))) (\<lambda>(v1, th1_opt).
            let st4 = st3\<lparr>g_l_th1 := g_l_th1 st3 @ [l_th1 v1],
                          l_th1_min := l_th1_min st3 @ [th1_min v1],
                          l_th1_opt := l_th1_opt st3 @ [th1_opt]\<rparr>
            in if mode = Calib_BCD
               then bind_err (th1_search (in_row v1) ths_dis (n_labels p) (objs_th4 p (th2_min v2)))
                      (\<lambda>(v4, th4_opt).
                         Inr (st4\<lparr>g_l_th4 := g_l_th4 st4 @ [l_th1 v4],
                                  l_th4_min := l_th4_min st4 @ [th1_min v4],
                                  l_th4_opt := l_th4_opt st4 @ [th1_opt]\<rparr>))
               else Inr st4)))"

text \<open>
  One iteration of \<^verbatim>\<open>for k in range(_img.shape[0])\<close>:
  \<^verbatim>\<open>
  labels = np.unique(mask)
  if len(labels) != 1:
      mask = remove_small_objects(mask, thres_small)
  if len(labels) == 1:
      if verbose: print("Skip this sample as it is just background")
  else:
      ... the searches ...
  # Store the number of nucleus
  ideal_number_obj.append(len(labels))
  \<close>
\<close>

definition process_patch ::
  "calib_mode \<Rightarrow> real list \<Rightarrow> real list \<Rightarrow> calib_lists \<Rightarrow> patch \<Rightarrow> py_error + calib_lists" where
  "process_patch mode ths ths_dis st p =
     bind_err (if n_labels p = 1 then Inr st else search_patch mode ths ths_dis st p)
       (\<lambda>st'. Inr (st'\<lparr>ideal_number_obj := ideal_number_obj st' @ [n_labels p]\<rparr>))"

fun process_patches ::
  "calib_mode \<Rightarrow> real list \<Rightarrow> real list \<Rightarrow> calib_lists \<Rightarrow> patch list \<Rightarrow> py_error + calib_lists" where
  "process_patches mode ths ths_dis st [] = Inr st"
| "process_patches mode ths ths_dis st (p # ps) =
     bind_err (process_patch mode ths ths_dis st p) (\<lambda>st'. process_patches mode ths ths_dis st' ps)"

section \<open>\<^verbatim>\<open>remove_close_points\<close>\<close>

text \<open>
  The points are the rows of an array of floats: \<^verbatim>\<open>points.copy()\<close> is a deep copy, the
  scaling changes the copy only, and the rows returned are those of the input.
\<close>

text \<open>A list comprehension whose element expression may raise.\<close>

fun map_err :: "('a \<Rightarrow> py_error + 'b) \<Rightarrow> 'a list \<Rightarrow> py_error + 'b list" where
  "map_err f [] = Inr []"
| "map_err f (x # xs) = bind_err (f x) (\<lambda>y. bind_err (map_err f xs) (\<lambda>ys. Inr (y # ys)))"

text \<open>
  \<^verbatim>\<open>
  point_list[i][0] = point_list[i][0]* resolution[0]
  point_list[i][1] = point_list[i][1]* resolution[1]
  if ndim == 3:
      point_list[i][2] = point_list[i][2]* resolution[2]
  \<close>
\<close>

definition scaled :: "int \<Rightarrow> real list \<Rightarrow> real list \<Rightarrow> real list" where
  "scaled ndim resolution p =
     (let p0 = p[0 := p ! 0 * resolution ! 0];
          p1 = p0[1 := p0 ! 1 * resolution ! 1]
      in if ndim = 3 then p1[2 := p1 ! 2 * resolution ! 2] else p1)"

definition scale_point :: "int \<Rightarrow> real list \<Rightarrow> real list \<Rightarrow> py_error + real list" where
  "scale_point ndim resolution p =
     (let need = (if ndim = 3 then 3 else 2)
      in if length p < need \<or> length resolution < need then Inl IndexError
         else Inr (scaled ndim resolution p))"

text \<open>Euclidean distance of two points of the tree.\<close>

definition euclid :: "real list \<Rightarrow> real list \<Rightarrow> real" where
  "euclid p q = sqrt (sum_list (map2 (\<lambda>a b. (a - b)\<^sup>2) p q))"

text \<open>
  The test "at distance at most \<open>r\<close>" without the square root, so that it can be computed.
\<close>

definition sqdist :: "real list \<Rightarrow> real list \<Rightarrow> real" where
  "sqdist p q = sum_list (map2 (\<lambda>a b. (a - b)\<^sup>2) p q)"

definition within_radius :: "real \<Rightarrow> real list \<Rightarrow> real list \<Rightarrow> bool" where
  "within_radius r p q \<longleftrightarrow> 0 \<le> r \<and> sqdist p q \<le> r\<^sup>2"

text \<open>
  \<^verbatim>\<open>cKDTree.query_pairs(r)\<close>: all pairs \<open>(i, j)\<close> with \<open>i < j\<close> of points whose distance is
  at most \<open>r\<close>.
\<close>

definition query_pairs :: "real list list \<Rightarrow> real \<Rightarrow> (nat \<times> nat) list" where
  "query_pairs pts r =
     concat (map (\<lambda>i. map (\<lambda>j. (i, j))
                        (filter (\<lambda>j. within_radius r (pts ! i) (pts ! j)) [Suc i..<length pts]))
                 [0..<length pts])"

text \<open>
  \<^verbatim>\<open>
  for i,j in pairs:
      if i not in neighbors: neighbors[i] = {j}
      else: neighbors[i].add(j)
      if j not in neighbors: neighbors[j] = {i}
      else: neighbors[j].add(i)
  \<close>
\<close>

definition add_neighbor :: "nat \<Rightarrow> nat \<Rightarrow> (nat \<rightharpoonup> nat set) \<Rightarrow> (nat \<rightharpoonup> nat set)" where
  "add_neighbor i j neighbors =
     (case neighbors i of None \<Rightarrow> neighbors(i \<mapsto> {j}) | Some s \<Rightarrow> neighbors(i \<mapsto> insert j s))"

fun build_neighbors :: "(nat \<times> nat) list \<Rightarrow> (nat \<rightharpoonup> nat set) \<Rightarrow> (nat \<rightharpoonup> nat set)" where
  "build_neighbors [] neighbors = neighbors"
| "build_neighbors ((i, j) # pairs) neighbors =
     build_neighbors pairs (add_neighbor j i (add_neighbor i j neighbors))"

text \<open>\<^verbatim>\<open>neighbors.get(node, set())\<close>\<close>

definition neighbors_get :: "(nat \<rightharpoonup> nat set) \<Rightarrow> nat \<Rightarrow> nat set" where
  "neighbors_get neighbors node = (case neighbors node of None \<Rightarrow> {} | Some s \<Rightarrow> s)"

text \<open>
  \<^verbatim>\<open>
  for node in positions:
      if node not in discard:
          keep.append(node)
          discard.update(neighbors.get(node,set()))
  \<close>
\<close>

fun keep_loop :: "(nat \<rightharpoonup> nat set) \<Rightarrow> nat list \<Rightarrow> nat list \<times> nat set \<Rightarrow> nat list \<times> nat set" where
  "keep_loop neighbors [] st = st"
| "keep_loop neighbors (node # positions) (keep, discard) =
     (if node \<notin> discard
      then keep_loop neighbors positions (keep @ [node], discard \<union> neighbors_get neighbors node)
      else keep_loop neighbors positions (keep, discard))"

definition remove_close_points ::
  "real list list \<Rightarrow> real \<Rightarrow> real list \<Rightarrow> 'c list option \<Rightarrow> int
     \<Rightarrow> py_error + (real list list \<times> 'c list option)" where
  "remove_close_points points radius resolution classes ndim =
     bind_err (map_err (scale_point ndim resolution) points) (\<lambda>mynumbers.
       if length mynumbers = 0 then Inr ([], None)
       else
         let pairs = query_pairs mynumbers radius;
             neighbors = build_neighbors pairs Map.empty;
             positions = [0..<length points];
             keep = fst (keep_loop neighbors positions ([], {}));
             new_point_list = map (\<lambda>i. points ! i) keep
         in case classes of
              None \<Rightarrow> Inr (new_point_list, None)
            | Some cl \<Rightarrow>
                bind_err (map_err (\<lambda>i. py_index cl (int i)) keep)
                  (\<lambda>new_class_list. Inr (new_point_list, Some new_class_list)))"

text \<open>No kept position is a neighbour of an earlier kept position.\<close>

definition apart :: "(nat \<rightharpoonup> nat set) \<Rightarrow> nat list \<Rightarrow> bool" where
  "apart nb keep \<longleftrightarrow> (\<forall>a<length keep. \<forall>b<length keep. a < b \<longrightarrow> keep ! b \<notin> neighbors_get nb (keep ! a))"

section \<open>\<^verbatim>\<open>remove_instance_by_circularity_central_slice\<close>\<close>

text \<open>A \<^verbatim>\<open>for\<close> loop whose body may raise: the first exception ends the loop.\<close>

fun for_err :: "'a list \<Rightarrow> ('a \<Rightarrow> 's \<Rightarrow> py_error + 's) \<Rightarrow> 's \<Rightarrow> py_error + 's" where
  "for_err [] body s = Inr s"
| "for_err (x # xs) body s = bind_err (body x s) (for_err xs body)"

text \<open>Python's \<^verbatim>\<open>/\<close>.\<close>

definition py_truediv :: "real \<Rightarrow> real \<Rightarrow> py_error + real" where
  "py_truediv a b = (if b = 0 then Inl ZeroDivisionError else Inr (a / b))"

text \<open>
  \<^verbatim>\<open>
  if props['perimeter'][k] != 0:
      circularity = (4 * math.pi * props['area'][k]) / (props['perimeter'][k]*props['perimeter'][k])
  else:
      circularity = 0
  \<close>
\<close>

definition circularity :: "real \<Rightarrow> real \<Rightarrow> py_error + real" where
  "circularity area perimeter =
     (if perimeter \<noteq> 0 then py_truediv (4 * pi * area) (perimeter * perimeter) else Inr 0)"

text \<open>\<^verbatim>\<open>list.index(x)\<close>: the first position of \<open>x\<close>, \<^verbatim>\<open>ValueError\<close> when absent.\<close>

fun list_index :: "'a list \<Rightarrow> 'a \<Rightarrow> py_error + nat" where
  "list_index [] x = Inl ValueError"
| "list_index (y # ys) x = (if y = x then Inr 0 else bind_err (list_index ys x) (\<lambda>n. Inr (Suc n)))"

text \<open>Reading position \<open>j\<close> of a list, \<open>j\<close> not negative.\<close>

definition item :: "'a list \<Rightarrow> nat \<Rightarrow> py_error + 'a" where
  "item xs j = (if j < length xs then Inr (xs ! j) else Inl IndexError)"

text \<open>
  One row of \<^verbatim>\<open>regionprops_table(img[i], properties=('label','area','perimeter','bbox'))\<close>.
  The bounding box only feeds the diameters, which are left out here.
\<close>

record region =
  region_label :: int
  region_area :: real
  region_perimeter :: real

text \<open>
  The arrays the measuring loop updates: \<^verbatim>\<open>circularities\<close> (float32 in the code, a real
  here), \<^verbatim>\<open>circularities_count\<close> (\<^verbatim>\<open>np.uint8\<close>) and \<^verbatim>\<open>coords_list\<close>.
\<close>

record measures =
  circularities :: "real list"
  circularities_count :: "8 word list"
  coords_list :: "int list list"

text \<open>
  The body of \<^verbatim>\<open>for k, l in enumerate(props['label'])\<close> in slice \<open>i\<close>.

  For a 3D image the index \<open>j\<close> of the label and its representative slices are looked up;
  when the diameters were not computed before (\<^verbatim>\<open>diam_calc\<close> false) the code reads
  \<^verbatim>\<open>props['bbox-4']\<close>, a key the table of a 2D slice does not have. For a 2D image \<open>j\<close> is
  never assigned, so the first use of \<^verbatim>\<open>circularities[j]\<close> raises.
\<close>

definition measure_region ::
  "bool \<Rightarrow> bool \<Rightarrow> int list \<Rightarrow> nat \<Rightarrow> region \<Rightarrow> measures \<Rightarrow> py_error + measures" where
  "measure_region image3d diam_calc label_list_coords i r st =
     (if image3d then
        bind_err (list_index label_list_coords (region_label r)) (\<lambda>j.
        bind_err (item (coords_list st) j) (\<lambda>coord_all.
          let multiple_slices = (length coord_all > 1);
              coord = (if multiple_slices then [coord_all ! 0] else coord_all)
          in if \<not> diam_calc then Inl KeyError
             else bind_err (item coord 0) (\<lambda>c0.
               if c0 = int i then
                 bind_err (circularity (region_area r) (region_perimeter r)) (\<lambda>circ.
                 bind_err (item (circularities st) j) (\<lambda>old.
                 bind_err (item (circularities_count st) j) (\<lambda>cnt.
                   let st1 = st\<lparr>circularities := (circularities st)[j := old + circ],
                                 circularities_count := (circularities_count st)[j := cnt + 1]\<rparr>
                   in if multiple_slices
                      then Inr (st1\<lparr>coords_list :=
                                   (coords_list st1)[j := tl coord_all @ [hd coord_all]]\<rparr>)
                      else Inr st1)))
               else Inr st)))
      else
        (if (0::int) = int i
         then bind_err (circularity (region_area r) (region_perimeter r)) (\<lambda>circ. Inl UnboundLocalError)
         else if \<not> diam_calc then Inl UnboundLocalError else Inr st))"

text \<open>
  \<^verbatim>\<open>
  for i in tqdm(range(img.shape[0]), leave=False):
      props = regionprops_table(img[i], ...)
      if len(props['label'])>0:
          for k, l in enumerate(props['label']): ...
  \<close>
  \<open>regionprops\<close> stands for the library call on one slice.
\<close>

definition measure_slices ::
  "(int list list \<Rightarrow> region list) \<Rightarrow> bool \<Rightarrow> bool \<Rightarrow> int list \<Rightarrow> int list list list
     \<Rightarrow> measures \<Rightarrow> py_error + measures" where
  "measure_slices regionprops image3d diam_calc label_list_coords img st =
     for_err [0..<length img]
       (\<lambda>i. for_err (regionprops (img ! i)) (measure_region image3d diam_calc label_list_coords i))
       st"

datatype comment = Correct | Strange | No_comment

text \<open>\<^verbatim>\<open>img[img==l] = 0\<close>\<close>

definition erase_label :: "int \<Rightarrow> int list list list \<Rightarrow> int list list list" where
  "erase_label l img = map (map (map (\<lambda>v. if v = l then 0 else v))) img"

record filtered =
  f_img :: "int list list list"
  f_circularities :: "real list"
  f_comment :: "comment list"
  labels_removed :: nat

text \<open>
  \<^verbatim>\<open>
  for i in tqdm(range(len(circularities)), leave=False):
      circularities[i] = circularities[i]/circularities_count[i] if circularities_count[i] != 0 else 0
      if circularities[i] > circularity_th:
          comment[i] = correct_str
      else:
          comment[i] = unsure_str
          img[img==label_list_coords[i]] = 0
          labels_removed += 1
  \<close>
\<close>

definition mean_circularity :: "real \<Rightarrow> 8 word \<Rightarrow> py_error + real" where
  "mean_circularity acc cnt = (if cnt \<noteq> 0 then py_truediv acc (real (unat cnt)) else Inr 0)"

definition filter_instance ::
  "real \<Rightarrow> int list \<Rightarrow> 8 word list \<Rightarrow> nat \<Rightarrow> filtered \<Rightarrow> py_error + filtered" where
  "filter_instance circularity_th label_list_coords counts i st =
     bind_err (item (f_circularities st) i) (\<lambda>acc.
     bind_err (item counts i) (\<lambda>cnt.
     bind_err (mean_circularity acc cnt) (\<lambda>c.
       let st1 = st\<lparr>f_circularities := (f_circularities st)[i := c]\<rparr>
       in if c > circularity_th
          then bind_err (item (f_comment st1) i) (\<lambda>_. Inr (st1\<lparr>f_comment := (f_comment st1)[i := Correct]\<rparr>))
          else bind_err (item (f_comment st1) i) (\<lambda>_.
               bind_err (item label_list_coords i) (\<lambda>l.
                 Inr (st1\<lparr>f_comment := (f_comment st1)[i := Strange],
                          f_img := erase_label l (f_img st1),
                          labels_removed := labels_removed st1 + 1\<rparr>))))))"

text \<open>
  Lines 1859 to 1921 of the function: the arrays are initialised, every slice is measured,
  every instance is tested. \<open>label_list_coords\<close>, \<open>coords_list\<close>, \<open>comment\<close> and \<open>diam_calc\<close>
  are what the first half of the function built; a 2D image is the list of its one slice
  (\<^verbatim>\<open>np.expand_dims(img,0)\<close>).
\<close>

definition circularity_filter ::
  "(int list list \<Rightarrow> region list) \<Rightarrow> bool \<Rightarrow> bool \<Rightarrow> int list \<Rightarrow> int list list \<Rightarrow> comment list
     \<Rightarrow> real \<Rightarrow> int list list list \<Rightarrow> py_error + filtered" where
  "circularity_filter regionprops image3d diam_calc label_list_coords coords comment circularity_th img =
     (let total_labels = length coords;
          st0 = \<lparr>circularities = replicate total_labels 0,
                 circularities_count = replicate total_labels 0,
                 coords_list = coords\<rparr>
      in bind_err (measure_slices regionprops image3d diam_calc label_list_coords img st0) (\<lambda>m.
           for_err [0..<length (circularities m)]
             (filter_instance circularity_th label_list_coords (circularities_count m))
             \<lparr>f_img = img, f_circularities = circularities m, f_comment = comment,
              labels_removed = 0\<rparr>))"

text \<open>The mean the filter compares with the threshold, as a total function.\<close>

definition mean_of :: "real \<Rightarrow> 8 word \<Rightarrow> real" where
  "mean_of acc cnt = (if cnt \<noteq> 0 then acc / real (unat cnt) else 0)"




section \<open>\<^verbatim>\<open>voronoi_on_mask\<close>\<close>

text \<open>
  A volume \<^verbatim>\<open>_data[i]\<close> is a list of slices of rows, indexed \<open>z\<close>, \<open>y\<close>, \<open>x\<close>. The positions of
  a volume in C order, as \<^verbatim>\<open>np.indices\<close> and \<^verbatim>\<open>np.argwhere\<close> enumerate them:
\<close>

definition vol_positions :: "'a list list list \<Rightarrow> (nat \<times> nat \<times> nat) list" where
  "vol_positions vol =
     concat (map (\<lambda>z. concat (map (\<lambda>y. map (\<lambda>x. (z, y, x)) [0..<length (vol ! z ! y)])
                                    [0..<length (vol ! z)]))
                 [0..<length vol])"

definition voxel :: "'a list list list \<Rightarrow> nat \<times> nat \<times> nat \<Rightarrow> 'a" where
  "voxel vol p = (case p of (z, y, x) \<Rightarrow> vol ! z ! y ! x)"

text \<open>\<^verbatim>\<open>_data[i,z,x,y] = v\<close>\<close>

definition set_voxel :: "'a list list list \<Rightarrow> nat \<times> nat \<times> nat \<Rightarrow> 'a \<Rightarrow> 'a list list list" where
  "set_voxel vol p v = (case p of (z, y, x) \<Rightarrow> vol[z := (vol ! z)[y := (vol ! z ! y)[x := v]]])"

definition pos_coords :: "nat \<times> nat \<times> nat \<Rightarrow> real list" where
  "pos_coords p = (case p of (z, y, x) \<Rightarrow> [real z, real y, real x])"

text \<open>
  \<^verbatim>\<open>labels, mean = npi.group_by(_data[i], axis=None).mean(idx, axis=1)\<close>: the distinct
  values of the volume in increasing order, and for each the mean of the coordinates of the
  voxels that carry it. The value 0 (background) is a group like any other.
\<close>

definition group_labels :: "int list list list \<Rightarrow> int list" where
  "group_labels vol = sort (remdups (map (voxel vol) (vol_positions vol)))"

definition centroid :: "int list list list \<Rightarrow> int \<Rightarrow> real list" where
  "centroid vol l =
     (let ps = filter (\<lambda>p. voxel vol p = l) (vol_positions vol)
      in map (\<lambda>k. sum_list (map (\<lambda>p. pos_coords p ! k) ps) / real (length ps)) [0..<3])"

definition centroids :: "int list list list \<Rightarrow> real list list" where
  "centroids vol = map (centroid vol) (group_labels vol)"

text \<open>
  \<^verbatim>\<open>voronoi_mask = (mask[i,...,0] > th)\<close>, followed by the cleaning of the mask (labelling,
  removal of small objects, two dilations, two erosions), which are library calls:
  \<open>clean\<close> stands for their composition.
\<close>

definition voronoi_mask ::
  "(bool list list list \<Rightarrow> bool list list list) \<Rightarrow> real \<Rightarrow> real list list list \<Rightarrow> bool list list list" where
  "voronoi_mask clean th mask0 = clean (map (map (map (\<lambda>m. m > th))) mask0)"

definition same_shape :: "'a list list list \<Rightarrow> 'b list list list \<Rightarrow> bool" where
  "same_shape a b \<longleftrightarrow> map (map length) a = map (map length) b"

text \<open>
  \<^verbatim>\<open>
  not_labelled_points = ((_data[i] > 0) != voronoi_mask).astype(np.uint8)
  pos_not_labelled_points = np.argwhere(not_labelled_points>0)
  \<close>
\<close>

definition pos_not_labelled_points ::
  "int list list list \<Rightarrow> bool list list list \<Rightarrow> (nat \<times> nat \<times> nat) list" where
  "pos_not_labelled_points vol vmask =
     filter (\<lambda>p. (voxel vol p > 0) \<noteq> voxel vmask p) (vol_positions vol)"

text \<open>
  \<^verbatim>\<open>
  for j in range(len(pos_not_labelled_points)):
      ...
      _data[i,z,x,y] = tree.query(pos_not_labelled_points[j])[1]
  \<close>
  \<open>query\<close> stands for \<^verbatim>\<open>KDTree(points).query(p)[1]\<close>: the position, in the list of
  points, of a point nearest to \<open>p\<close>. The tree is built before the loop.
\<close>

definition voronoi_volume ::
  "(real list list \<Rightarrow> real list \<Rightarrow> nat) \<Rightarrow> (bool list list list \<Rightarrow> bool list list list) \<Rightarrow> real
     \<Rightarrow> int list list list \<Rightarrow> real list list list \<Rightarrow> py_error + int list list list" where
  "voronoi_volume query clean th vol mask0 =
     (let points = centroids vol;
          vmask = voronoi_mask clean th mask0
      in if \<not> same_shape vol vmask then Inl ValueError
         else Inr (fold (\<lambda>p d. set_voxel d p (int (query points (pos_coords p))))
                        (pos_not_labelled_points vol vmask) vol))"

text \<open>A nearest-neighbour query that returns the first nearest point.\<close>

definition sq_dist :: "real list \<Rightarrow> real list \<Rightarrow> real" where
  "sq_dist p q = sum_list (map2 (\<lambda>a b. (a - b)\<^sup>2) p q)"

fun first_nearest :: "real list list \<Rightarrow> real list \<Rightarrow> nat" where
  "first_nearest [] p = 0"
| "first_nearest [c] p = 0"
| "first_nearest (c # cs) p =
     (let k = first_nearest cs p
      in if sq_dist c p \<le> sq_dist (cs ! k) p then 0 else Suc k)"

definition voronoi_on_mask ::
  "(real list list \<Rightarrow> real list \<Rightarrow> nat) \<Rightarrow> (bool list list list \<Rightarrow> bool list list list)
     \<Rightarrow> int list list list list \<Rightarrow> real list list list list list \<Rightarrow> nat \<Rightarrow> string list option
     \<Rightarrow> real \<Rightarrow> py_error + int list list list list" where
  "voronoi_on_mask query clean data mask_arr n_channels filenames th =
     (if n_channels < 2 then Inl ValueError
      else if (case filenames of None \<Rightarrow> False | Some fs \<Rightarrow> length fs \<noteq> length data)
      then Inl ValueError
      else map_err (\<lambda>i. bind_err (item mask_arr i) (\<lambda>m.
                      voronoi_volume query clean th (data ! i) (map (map (map (\<lambda>c. c ! 0))) m)))
                   [0..<length data])"

text \<open>A position that exists in a volume.\<close>

definition valid_pos :: "'a list list list \<Rightarrow> nat \<times> nat \<times> nat \<Rightarrow> bool" where
  "valid_pos vol p \<longleftrightarrow>
     (case p of (z, y, x) \<Rightarrow> z < length vol \<and> y < length (vol ! z) \<and> x < length (vol ! z ! y))"

section \<open>\<^verbatim>\<open>watershed_by_channels\<close>: seeds, foreground and growth\<close>

text \<open>
  The prediction is a list of slices (one slice for a 2D image), a slice a list of voxels, a
  voxel the list of its channel values. Every operation of the function is either
  voxel-wise or a library call on a slice or on the volume, so the two spatial axes of a slice
  are kept flat.
\<close>

datatype channels = BC | BCM | BCD | BCDv2 | Dv2 | BDv2 | BP

text \<open>\<^verbatim>\<open>ths['TH1']\<close>\<close>

definition th_get :: "(string \<rightharpoonup> real) \<Rightarrow> string \<Rightarrow> py_error + real" where
  "th_get ths k = (case ths k of None \<Rightarrow> Inl KeyError | Some v \<Rightarrow> Inr v)"

text \<open>\<^verbatim>\<open>data[...,k]\<close>\<close>

definition channel :: "real list list list \<Rightarrow> nat \<Rightarrow> py_error + real list list" where
  "channel data k =
     (if list_all (list_all (\<lambda>v. k < length v)) data then Inr (map (map (\<lambda>v. v ! k)) data)
      else Inl IndexError)"

text \<open>
  The library functions the code calls: \<^verbatim>\<open>skimage.measure.label\<close> with connectivity 1,
  \<^verbatim>\<open>binary_dilation\<close> and \<^verbatim>\<open>binary_erosion\<close> of a slice with \<^verbatim>\<open>disk(radius)\<close>,
  \<^verbatim>\<open>distance_transform_edt\<close>, \<^verbatim>\<open>remove_small_objects\<close> and
  \<^verbatim>\<open>skimage.segmentation.watershed(image, markers, mask=...)\<close>. The seed construction of
  the layouts \<^verbatim>\<open>BCDv2\<close>, \<^verbatim>\<open>BDv2\<close> and \<^verbatim>\<open>Dv2\<close> (thresholds, background seed, labelling,
  seed morphology) builds no foreground mask and is carried as one function.
\<close>

record ws_lib =
  lib_label :: "bool list list \<Rightarrow> int list list"
  lib_binary_dilation :: "nat \<Rightarrow> bool list \<Rightarrow> bool list"
  lib_binary_erosion :: "nat \<Rightarrow> bool list \<Rightarrow> bool list"
  lib_distance_transform_edt :: "bool list list \<Rightarrow> real list list"
  lib_remove_small_objects :: "int list list \<Rightarrow> int \<Rightarrow> int list list"
  lib_watershed :: "real list list \<Rightarrow> int list list \<Rightarrow> bool list list option \<Rightarrow> int list list"
  lib_seeds_v2 :: "channels \<Rightarrow> real list list list \<Rightarrow> (string \<rightharpoonup> real) \<Rightarrow> py_error + int list list"

record ws_options =
  remove_before :: bool
  thres_small_before :: int
  remove_after :: bool
  thres_small_after :: int
  seed_morph_sequence :: "string list"
  seed_morph_radius :: "nat list"
  erode_and_dilate_foreground :: bool
  fore_erosion_radius :: nat
  fore_dilation_radius :: nat

text \<open>
  \<^verbatim>\<open>
  morph_funcs = []
  for operation in seed_morph_sequence:
      if operation == "dilate":  morph_funcs.append(binary_dilation)
      elif operation == "erode": morph_funcs.append(binary_erosion)
  \<close>
\<close>

definition morph_funcs :: "ws_lib \<Rightarrow> string list \<Rightarrow> (nat \<Rightarrow> bool list \<Rightarrow> bool list) list" where
  "morph_funcs lib ops =
     concat (map (\<lambda>operation.
                    if operation = ''dilate'' then [lib_binary_dilation lib]
                    else if operation = ''erode'' then [lib_binary_erosion lib]
                    else []) ops)"

text \<open>
  The closure \<^verbatim>\<open>erode_seed_and_foreground\<close>, slice by slice:
  \<^verbatim>\<open>
  for k, morph_function in enumerate(morph_funcs):
      seed_map[i] = morph_function(seed_map[i], disk(radius=seed_morph_radius[k]))
  if erode_and_dilate_foreground:
      foreground[i] = binary_dilation(foreground[i], disk(radius=fore_erosion_radius))
      foreground[i] = binary_erosion(foreground[i], disk(radius=fore_dilation_radius))
  \<close>
\<close>

definition morph_seed_slice :: "ws_lib \<Rightarrow> ws_options \<Rightarrow> bool list \<Rightarrow> py_error + bool list" where
  "morph_seed_slice lib opts seed_slice =
     (let fs = morph_funcs lib (seed_morph_sequence opts)
      in for_err [0..<length fs]
           (\<lambda>k sl. bind_err (item (seed_morph_radius opts) k) (\<lambda>r. Inr ((fs ! k) r sl)))
           seed_slice)"

definition fore_slice :: "ws_lib \<Rightarrow> ws_options \<Rightarrow> bool list \<Rightarrow> bool list" where
  "fore_slice lib opts fg_slice =
     (if erode_and_dilate_foreground opts
      then lib_binary_erosion lib (fore_dilation_radius opts)
             (lib_binary_dilation lib (fore_erosion_radius opts) fg_slice)
      else fg_slice)"

definition erode_seed_and_foreground ::
  "ws_lib \<Rightarrow> ws_options \<Rightarrow> bool list list \<Rightarrow> bool list list
     \<Rightarrow> py_error + (bool list list \<times> bool list list)" where
  "erode_seed_and_foreground lib opts seed_map foreground =
     bind_err (map_err (\<lambda>i. bind_err (morph_seed_slice lib opts (seed_map ! i)) (\<lambda>s.
                             bind_err (item foreground i) (\<lambda>f. Inr (s, fore_slice lib opts f))))
                 [0..<length seed_map])
       (\<lambda>rows. Inr (map fst rows, map snd rows))"

text \<open>Voxel-wise product of boolean arrays.\<close>

definition and_vol :: "bool list list \<Rightarrow> bool list list \<Rightarrow> bool list list" where
  "and_vol a b = map2 (map2 (\<and>)) a b"

definition gt_vol :: "real list list \<Rightarrow> real \<Rightarrow> bool list list" where
  "gt_vol a t = map (map (\<lambda>x. x > t)) a"

definition lt_vol :: "real list list \<Rightarrow> real \<Rightarrow> bool list list" where
  "lt_vol a t = map (map (\<lambda>x. x < t)) a"

text \<open>
  \<^verbatim>\<open>if len(seed_morph_sequence) != 0 or erode_and_dilate_foreground: erode_seed_and_foreground()\<close>
\<close>

definition maybe_erode ::
  "ws_lib \<Rightarrow> ws_options \<Rightarrow> bool list list \<Rightarrow> bool list list
     \<Rightarrow> py_error + (bool list list \<times> bool list list)" where
  "maybe_erode lib opts seed_map foreground =
     (if length (seed_morph_sequence opts) \<noteq> 0 \<or> erode_and_dilate_foreground opts
      then erode_seed_and_foreground lib opts seed_map foreground
      else Inr (seed_map, foreground))"

text \<open>
  The branches on \<^verbatim>\<open>channels\<close> (lines 282 to 339): the surface \<^verbatim>\<open>semantic\<close>, the labelled
  \<^verbatim>\<open>seed_map\<close> and the mask \<^verbatim>\<open>foreground\<close>, which is \<^verbatim>\<open>None\<close> for the three last layouts.
\<close>

definition ws_inputs ::
  "ws_lib \<Rightarrow> ws_options \<Rightarrow> real list list list \<Rightarrow> channels \<Rightarrow> (string \<rightharpoonup> real)
     \<Rightarrow> py_error + (real list list \<times> int list list \<times> bool list list option)" where
  "ws_inputs lib opts data chs ths =
     (if chs = BC \<or> chs = BCM then
        bind_err (channel data 0) (\<lambda>d0. bind_err (th_get ths ''TH1'') (\<lambda>th1.
        bind_err (channel data 1) (\<lambda>d1. bind_err (th_get ths ''TH2'') (\<lambda>th2.
        bind_err (th_get ths ''TH3'') (\<lambda>th3.
        bind_err (maybe_erode lib opts (and_vol (gt_vol d0 th1) (lt_vol d1 th2)) (gt_vol d0 th3))
          (\<lambda>(seed_map, foreground).
            Inr (lib_distance_transform_edt lib foreground, lib_label lib seed_map,
                 Some foreground)))))))
      else if chs = BP then
        bind_err (channel data 1) (\<lambda>d1. bind_err (th_get ths ''TH_POINTS'') (\<lambda>thp.
        bind_err (channel data 0) (\<lambda>d0. bind_err (th_get ths ''TH3'') (\<lambda>th3.
        bind_err (maybe_erode lib opts (gt_vol d1 thp) (gt_vol d0 th3))
          (\<lambda>(seed_map, foreground).
            Inr (lib_distance_transform_edt lib foreground, lib_label lib seed_map,
                 Some foreground))))))
      else if chs = BCD then
        bind_err (channel data 0) (\<lambda>semantic. bind_err (th_get ths ''TH1'') (\<lambda>th1.
        bind_err (channel data 1) (\<lambda>d1. bind_err (th_get ths ''TH2'') (\<lambda>th2.
        bind_err (channel data 2) (\<lambda>d2. bind_err (th_get ths ''TH4'') (\<lambda>th4.
        bind_err (th_get ths ''TH3'') (\<lambda>th3. bind_err (th_get ths ''TH5'') (\<lambda>th5.
        bind_err (maybe_erode lib opts
                    (and_vol (and_vol (gt_vol semantic th1) (lt_vol d1 th2)) (gt_vol d2 th4))
                    (and_vol (gt_vol semantic th3) (gt_vol d2 th5)))
          (\<lambda>(seed_map, foreground).
            Inr (semantic, lib_label lib seed_map, Some foreground))))))))))
      else
        bind_err (map_err (\<lambda>sl. map_err (\<lambda>v. if v = [] then Inl IndexError else Inr (last v)) sl) data)
          (\<lambda>semantic. bind_err (lib_seeds_v2 lib chs data ths) (\<lambda>seed_map.
            Inr (semantic, seed_map, None))))"

text \<open>
  \<^verbatim>\<open>
  if remove_before: seed_map = remove_small_objects(seed_map, thres_small_before)
  segm = watershed(-semantic, seed_map, mask=foreground)
  if remove_after:  segm = remove_small_objects(segm, thres_small_after)
  max_value = np.max(segm) ... segm = segm.astype(...)
  return segm
  \<close>
  Writing the files of \<^verbatim>\<open>save_dir\<close> is left out.
\<close>

definition watershed_by_channels ::
  "ws_lib \<Rightarrow> ws_options \<Rightarrow> real list list list \<Rightarrow> channels \<Rightarrow> (string \<rightharpoonup> real)
     \<Rightarrow> py_error + (dtype \<times> int list list)" where
  "watershed_by_channels lib opts data chs ths =
     bind_err (ws_inputs lib opts data chs ths) (\<lambda>(semantic, seed_map0, foreground).
       let seed_map = (if remove_before opts
                       then lib_remove_small_objects lib seed_map0 (thres_small_before opts)
                       else seed_map0);
           segm0 = lib_watershed lib (map (map uminus) semantic) seed_map foreground;
           segm = (if remove_after opts
                   then lib_remove_small_objects lib segm0 (thres_small_after opts)
                   else segm0)
       in bind_err (np_max (concat segm)) (\<lambda>max_value.
            let t = choose_dtype max_value in Inr (t, map (astype t) segm)))"

text \<open>
  What the documentation of the two library functions promises: \<^verbatim>\<open>watershed\<close> labels only
  points at which the mask is true and returns an array of the shape of the mask;
  \<^verbatim>\<open>remove_small_objects\<close> returns an array of the same shape in which a voxel keeps its
  value or becomes 0.
\<close>

definition watershed_respects_mask :: "ws_lib \<Rightarrow> bool" where
  "watershed_respects_mask lib \<longleftrightarrow>
     (\<forall>surface seeds m.
        map length (lib_watershed lib surface seeds (Some m)) = map length m
        \<and> (\<forall>s<length m. \<forall>v<length (m ! s).
              \<not> m ! s ! v \<longrightarrow> lib_watershed lib surface seeds (Some m) ! s ! v = 0))"

definition removal_only_clears :: "ws_lib \<Rightarrow> bool" where
  "removal_only_clears lib \<longleftrightarrow>
     (\<forall>a n. map length (lib_remove_small_objects lib a n) = map length a
        \<and> (\<forall>s<length a. \<forall>v<length (a ! s).
              a ! s ! v = 0 \<longrightarrow> lib_remove_small_objects lib a n ! s ! v = 0))"

text \<open>
  A small stand-in for the libraries, used in the examples: every foreground voxel is its
  own seed, growth labels every voxel of the mask with 1, morphology and removal change
  nothing.
\<close>

definition toy_lib :: ws_lib where
  "toy_lib =
     \<lparr>lib_label = map (map (\<lambda>b. if b then 1 else 0)),
      lib_binary_dilation = (\<lambda>r sl. sl),
      lib_binary_erosion = (\<lambda>r sl. sl),
      lib_distance_transform_edt = map (map (\<lambda>b. if b then 1 else 0)),
      lib_remove_small_objects = (\<lambda>a n. a),
      lib_watershed = (\<lambda>surface seeds m.
         case m of None \<Rightarrow> seeds | Some mk \<Rightarrow> map (map (\<lambda>b. if b then 1 else 0)) mk),
      lib_seeds_v2 = (\<lambda>chs data ths. Inl ValueError)\<rparr>"

definition plain_options :: ws_options where
  "plain_options =
     \<lparr>remove_before = False, thres_small_before = 10, remove_after = False,
      thres_small_after = 128, seed_morph_sequence = [], seed_morph_radius = [],
      erode_and_dilate_foreground = False, fore_erosion_radius = 5, fore_dilation_radius = 5\<rparr>"

section \<open>Test-time augmentation: \<^verbatim>\<open>ensemble8_2d_predictions\<close> and \<^verbatim>\<open>ensemble16_3d_predictions\<close>\<close>

subsection \<open>Arrays of any rank\<close>







subsection \<open>The numpy operations of the two functions\<close>















subsection \<open>\<^verbatim>\<open>ensemble8_2d_predictions\<close>\<close>







subsection \<open>\<^verbatim>\<open>ensemble16_3d_predictions\<close>\<close>










section \<open>Theorems\<close>

text \<open>
  C5. The claim asks for the smallest unsigned width that represents the maximum label,
  with 255 stored as uint8 and 65535 as uint16. The code compares with \<open><\<close>: a
  segmentation whose maximum label is 255 fits uint8 but is returned as uint16, and one whose
  maximum is 65535 fits uint16 but is returned as uint32.
\<close>

theorem cast_segm_boundary_not_smallest:
  "cast_segm [0, 255] = Inr (UInt16, [0, 255])
   \<and> smallest_dtype 255 = UInt8 \<and> 255 \<le> dtype_max UInt8
   \<and> cast_segm [0, 65535] = Inr (UInt32, [0, 65535])
   \<and> smallest_dtype 65535 = UInt16 \<and> 65535 \<le> dtype_max UInt16"
  by (simp add: cast_segm_def np_max_def bind_err_def choose_dtype_def astype_def
      smallest_dtype_def dtype_max_def dtype_bits_def)


section \<open>Threshold calibration: the sweeps\<close>

subsection \<open>TH2: the state after each candidate\<close>





lemma th1_loop_Suc:
  "th1_loop b ths nl cnt (Suc m) = th1_body ths nl cnt (th1_loop b ths nl cnt m) m"
  by (simp add: th1_loop_def)

lemma same_diff_0: "same_diff nl cnt op 0"
  unfolding same_diff_def
proof (intro allI impI)
  fix j assume "op \<le> j \<and> j \<le> op + 0"
  then have "j = op" by linarith
  then show "\<bar>cnt j - nl\<bar> = \<bar>cnt op - nl\<bar>" by simp
qed

lemma same_diff_Suc:
  assumes "same_diff nl cnt op r" and "\<bar>cnt (Suc (op + r)) - nl\<bar> = \<bar>cnt op - nl\<bar>"
  shows "same_diff nl cnt op (Suc r)"
  unfolding same_diff_def
proof (intro allI impI)
  fix j assume j: "op \<le> j \<and> j \<le> op + Suc r"
  then consider "j \<le> op + r" | "j = Suc (op + r)" by linarith
  then show "\<bar>cnt j - nl\<bar> = \<bar>cnt op - nl\<bar>"
  proof cases
    case 1 then show ?thesis using j assms(1) unfolding same_diff_def by blast
  next
    case 2 then show ?thesis using assms(2) by simp
  qed
qed

lemma same_diff_last:
  assumes "same_diff nl cnt op r"
  shows "\<bar>cnt (op + r) - nl\<bar> = \<bar>cnt op - nl\<bar>"
proof -
  have "op \<le> op + r \<and> op + r \<le> op + r" by simp
  then show ?thesis using assms unfolding same_diff_def by blast
qed

lemma th1_accepts_l_th1 [simp]: "th1_accepts (s\<lparr>l_th1 := xs\<rparr>) d = th1_accepts s d"
  by (simp add: th1_accepts_def)

lemma th1_body_accept:
  assumes "th1_accepts s \<bar>cnt k - nl\<bar>"
  shows "th1_body ths nl cnt s k =
      s\<lparr>l_th1 := l_th1 s @ [cnt k], th1_obj_min_diff := \<bar>cnt k - nl\<bar>,
        th1_min := ths ! k, th1_op_pos := int k, th1_repeat_count := 0,
        in_row := True, th1_last := \<bar>cnt k - nl\<bar>\<rparr>"
proof -
  from assms have ne: "\<bar>cnt k - nl\<bar> \<noteq> th1_last s" by (simp add: th1_accepts_def)
  show ?thesis
    unfolding th1_body_def Let_def using assms ne by simp
qed

lemma th1_body_count:
  assumes "\<not> th1_accepts s \<bar>cnt k - nl\<bar>"
    and "\<bar>cnt k - nl\<bar> = th1_last s" and "\<bar>cnt k - nl\<bar> = th1_obj_min_diff s" and "in_row s"
  shows "th1_body ths nl cnt s k =
      s\<lparr>l_th1 := l_th1 s @ [cnt k], th1_repeat_count := th1_repeat_count s + 1,
        th1_last := \<bar>cnt k - nl\<bar>\<rparr>"
  unfolding th1_body_def Let_def using assms by simp

lemma th1_body_break:
  assumes "\<not> th1_accepts s \<bar>cnt k - nl\<bar>"
    and "\<not> (\<bar>cnt k - nl\<bar> = th1_last s \<and> \<bar>cnt k - nl\<bar> = th1_obj_min_diff s \<and> in_row s)"
    and "th1_op_pos s \<noteq> int k"
  shows "th1_body ths nl cnt s k =
      s\<lparr>l_th1 := l_th1 s @ [cnt k], in_row := False, th1_last := \<bar>cnt k - nl\<bar>\<rparr>"
  unfolding th1_body_def Let_def using assms by auto

lemma th1_step_accept:
  assumes "th1_accepts s \<bar>cnt k - nl\<bar>"
  shows "th1_run ths nl cnt k (th1_body ths nl cnt s k) k 0"
proof -
  show ?thesis
    unfolding th1_run_def th1_body_accept[where cnt=cnt and k=k and nl=nl, OF assms]
    by (simp add: same_diff_0)
qed

lemma th1_body_last: "th1_last (th1_body ths nl cnt s k) = \<bar>cnt k - nl\<bar>"
  by (simp add: th1_body_def Let_def)

lemma th1_inv_first: "th1_inv ths nl cnt 0 (th1_loop b ths nl cnt (Suc 0))"
proof (cases "th1_accepts (th1_init b) \<bar>cnt 0 - nl\<bar>")
  case True
  have "th1_run ths nl cnt 0 (th1_body ths nl cnt (th1_init b) 0) 0 0"
    by (rule th1_step_accept[where cnt=cnt and k=0 and nl=nl, OF True])
  then show ?thesis unfolding th1_inv_def th1_loop_Suc th1_body_last
    by (auto simp: th1_loop_def)
next
  case False
  have "\<not> (\<bar>cnt 0 - nl\<bar> = th1_last (th1_init b)
       \<and> \<bar>cnt 0 - nl\<bar> = th1_obj_min_diff (th1_init b) \<and> in_row (th1_init b))"
    by (auto simp: th1_init_def maxsize_def)
  moreover have "th1_op_pos (th1_init b) \<noteq> int 0" by (simp add: th1_init_def)
  ultimately have "th1_body ths nl cnt (th1_init b) 0 =
      (th1_init b)\<lparr>l_th1 := l_th1 (th1_init b) @ [cnt 0], in_row := False,
         th1_last := \<bar>cnt 0 - nl\<bar>\<rparr>"
    using th1_body_break[where cnt=cnt and k=0 and nl=nl, OF False] by blast
  then have "th1_none (th1_body ths nl cnt (th1_init b) 0)"
    by (simp add: th1_none_def th1_init_def)
  then show ?thesis unfolding th1_inv_def th1_loop_Suc th1_body_last
    by (auto simp: th1_loop_def)
qed

lemma th1_inv_pos:
  assumes "th1_inv ths nl cnt m s"
  shows "th1_op_pos s \<noteq> int (Suc m)"
proof -
  from assms consider "th1_none s" | op r where "th1_run ths nl cnt m s op r"
    unfolding th1_inv_def by blast
  then show ?thesis
  proof cases
    case 1 then show ?thesis by (simp add: th1_none_def)
  next
    case 2 then show ?thesis by (simp add: th1_run_def)
  qed
qed

lemma th1_step_count:
  assumes "th1_run ths nl cnt m s op r" and "\<not> th1_accepts s \<bar>cnt (Suc m) - nl\<bar>"
    and "\<bar>cnt (Suc m) - nl\<bar> = th1_last s" and "\<bar>cnt (Suc m) - nl\<bar> = th1_obj_min_diff s"
    and "in_row s"
  shows "th1_run ths nl cnt (Suc m) (th1_body ths nl cnt s (Suc m)) op (Suc r)"
proof -
  have body: "th1_body ths nl cnt s (Suc m) =
      s\<lparr>l_th1 := l_th1 s @ [cnt (Suc m)], th1_repeat_count := th1_repeat_count s + 1,
        th1_last := \<bar>cnt (Suc m) - nl\<bar>\<rparr>"
    by (rule th1_body_count[where cnt=cnt and k="Suc m" and nl=nl, OF assms(2-5)])
  have e: "op + r = m" using assms(1,5) by (simp add: th1_run_def)
  have old: "same_diff nl cnt op r" using assms(1) by (simp add: th1_run_def)
  have new: "\<bar>cnt (Suc (op + r)) - nl\<bar> = \<bar>cnt op - nl\<bar>"
    using assms(1,4) e by (simp add: th1_run_def)
  have run: "same_diff nl cnt op (Suc r)" by (rule same_diff_Suc[OF old new])
  have rest: "th1_op_pos s = int op" "th1_repeat_count s = int r"
    "th1_obj_min_diff s = \<bar>cnt op - nl\<bar>" "th1_min s = ths ! op"
    using assms(1) by (simp_all add: th1_run_def)
  show ?thesis
    unfolding th1_run_def body
    using rest e assms(5) by (simp add: run)
qed

lemma th1_step_break:
  assumes "th1_run ths nl cnt m s op r" and "th1_last s = \<bar>cnt m - nl\<bar>"
    and "\<not> th1_accepts s \<bar>cnt (Suc m) - nl\<bar>"
    and "\<not> (\<bar>cnt (Suc m) - nl\<bar> = th1_last s \<and> \<bar>cnt (Suc m) - nl\<bar> = th1_obj_min_diff s \<and> in_row s)"
  shows "th1_run ths nl cnt (Suc m) (th1_body ths nl cnt s (Suc m)) op r"
proof -
  have pos: "th1_op_pos s \<noteq> int (Suc m)" using assms(1) by (simp add: th1_run_def)
  have body: "th1_body ths nl cnt s (Suc m) =
      s\<lparr>l_th1 := l_th1 s @ [cnt (Suc m)], in_row := False, th1_last := \<bar>cnt (Suc m) - nl\<bar>\<rparr>"
    by (rule th1_body_break[where cnt=cnt and k="Suc m" and nl=nl, OF assms(3,4) pos])
  have old: "same_diff nl cnt op r" using assms(1) by (simp add: th1_run_def)
  have rest: "th1_op_pos s = int op" "th1_repeat_count s = int r"
    "th1_obj_min_diff s = \<bar>cnt op - nl\<bar>" "th1_min s = ths ! op" "op + r \<le> m"
    using assms(1) by (simp_all add: th1_run_def)
  have brk: "op + r < Suc m \<and> \<bar>cnt (Suc (op + r)) - nl\<bar> \<noteq> \<bar>cnt op - nl\<bar>"
  proof (cases "in_row s")
    case True
    then have e: "op + r = m" using assms(1) by (simp add: th1_run_def)
    have "\<bar>cnt m - nl\<bar> = \<bar>cnt op - nl\<bar>" using same_diff_last[OF old] e by simp
    then have "\<bar>cnt (Suc m) - nl\<bar> \<noteq> \<bar>cnt op - nl\<bar>"
      using assms(2,4) True rest(3) by auto
    then show ?thesis using e by simp
  next
    case False
    then show ?thesis using assms(1) by (simp add: th1_run_def)
  qed
  show ?thesis
    unfolding th1_run_def body
    using rest brk by (simp add: old)
qed

lemma th1_step_none:
  assumes "th1_none s" and "\<not> th1_accepts s \<bar>cnt (Suc m) - nl\<bar>"
  shows "th1_none (th1_body ths nl cnt s (Suc m))"
proof -
  have "th1_op_pos s \<noteq> int (Suc m)" using assms(1) by (simp add: th1_none_def)
  moreover have "\<not> (\<bar>cnt (Suc m) - nl\<bar> = th1_last s
      \<and> \<bar>cnt (Suc m) - nl\<bar> = th1_obj_min_diff s \<and> in_row s)"
    using assms(1) by (simp add: th1_none_def)
  ultimately have "th1_body ths nl cnt s (Suc m) =
      s\<lparr>l_th1 := l_th1 s @ [cnt (Suc m)], in_row := False, th1_last := \<bar>cnt (Suc m) - nl\<bar>\<rparr>"
    using th1_body_break[where cnt=cnt and k="Suc m" and nl=nl, OF assms(2)] by blast
  then show ?thesis using assms(1) by (simp add: th1_none_def)
qed

lemma th1_inv_step:
  assumes "th1_inv ths nl cnt m s"
  shows "th1_inv ths nl cnt (Suc m) (th1_body ths nl cnt s (Suc m))"
proof (cases "th1_accepts s \<bar>cnt (Suc m) - nl\<bar>")
  case True
  have "th1_run ths nl cnt (Suc m) (th1_body ths nl cnt s (Suc m)) (Suc m) 0"
    by (rule th1_step_accept[where cnt=cnt and k="Suc m" and nl=nl, OF True])
  then show ?thesis
    unfolding th1_inv_def th1_body_last by blast
next
  case False
  from assms have last: "th1_last s = \<bar>cnt m - nl\<bar>" by (simp add: th1_inv_def)
  from assms consider "th1_none s" | op r where "th1_run ths nl cnt m s op r"
    unfolding th1_inv_def by blast
  then show ?thesis
  proof cases
    case 1
    from th1_step_none[where cnt=cnt and m=m and nl=nl, OF 1 False] show ?thesis
      unfolding th1_inv_def th1_body_last by blast
  next
    case 2
    show ?thesis
    proof (cases "\<bar>cnt (Suc m) - nl\<bar> = th1_last s \<and> \<bar>cnt (Suc m) - nl\<bar> = th1_obj_min_diff s \<and> in_row s")
      case True
      then have "th1_run ths nl cnt (Suc m) (th1_body ths nl cnt s (Suc m)) op (Suc r)"
        using th1_step_count[where cnt=cnt and m=m and nl=nl, OF 2 False] by blast
      then show ?thesis unfolding th1_inv_def th1_body_last by blast
    next
      case nb: False
      from th1_step_break[where cnt=cnt and m=m and nl=nl, OF 2 last False nb] show ?thesis
        unfolding th1_inv_def th1_body_last by blast
    qed
  qed
qed

lemma th1_loop_inv: "th1_inv ths nl cnt m (th1_loop b ths nl cnt (Suc m))"
proof (induction m)
  case 0
  show ?case by (rule th1_inv_first)
next
  case (Suc m)
  show ?case
    unfolding th1_loop_Suc[of _ _ _ _ "Suc m"] by (rule th1_inv_step[OF Suc])
qed





lemma th1_loop_0: "th1_loop b ths nl cnt 0 = th1_init b"
  by (simp add: th1_loop_def)

lemmas th1_eval = th1_loop_Suc th1_loop_0 th1_body_def th1_init_def th1_accepts_def Let_def
  maxsize_def th1_opt_pos_def th1_search_def bind_err_def py_index_def eval_nat_numeral

lemma th1_body_moves_best:
  assumes "th1_op_pos (th1_body ths nl cnt s k) \<noteq> th1_op_pos s"
  shows "th1_accepts s \<bar>cnt k - nl\<bar> \<and> th1_op_pos (th1_body ths nl cnt s k) = int k"
proof (cases "th1_accepts s \<bar>cnt k - nl\<bar>")
  case True
  then show ?thesis
    by (simp add: th1_body_accept[where cnt=cnt and k=k and nl=nl, OF True])
next
  case False
  then have "th1_op_pos (th1_body ths nl cnt s k) = th1_op_pos s"
    unfolding th1_body_def Let_def by auto
  with assms show ?thesis by simp
qed

lemma th1_search_none:
  assumes "ths \<noteq> []" and "th1_none (th1_loop b ths nl cnt (length ths))"
  shows "th1_search b ths nl cnt = Inr (th1_loop b ths nl cnt (length ths), last ths)"
proof -
  let ?s = "th1_loop b ths nl cnt (length ths)"
  have p: "th1_opt_pos ths ?s = - 1"
    using assms(2) by (simp add: th1_opt_pos_def th1_none_def Let_def)
  have "py_index ths (- 1) = Inr (ths ! (length ths - 1))"
    using assms(1) by (cases ths) (simp_all add: py_index_def)
  then show ?thesis
    using assms(1) p by (simp add: th1_search_def Let_def bind_err_def last_conv_nth)
qed

lemma th1_search_some:
  assumes "th1_run ths nl cnt m (th1_loop b ths nl cnt (length ths)) op r" and "length ths = Suc m"
  shows "th1_search b ths nl cnt = Inr (th1_loop b ths nl cnt (length ths), ths ! (op + r))"
proof -
  let ?s = "th1_loop b ths nl cnt (length ths)"
  have f: "th1_op_pos ?s = int op" "th1_repeat_count ?s = int r" "op + r \<le> m"
    using assms(1) by (simp_all add: th1_run_def)
  have p: "th1_opt_pos ths ?s = int (op + r)"
    using f assms(2) by (simp add: th1_opt_pos_def Let_def)
  have "py_index ths (int (op + r)) = Inr (ths ! (op + r))"
    using f(3) assms(2) by (simp add: py_index_def flip: of_nat_add)
  then show ?thesis
    using p by (simp add: th1_search_def Let_def bind_err_def)
qed




text \<open>
  C2 (counterexample). With true count 3 and object counts 5, 8, 5, ... the best after two
  candidates is candidate 0 with difference 2. Candidate 2 has the same difference 2, so it
  does not improve strictly, and yet it becomes the new best.
\<close>

theorem th1_accepts_equal_difference:
  "th1_op_pos (th1_loop False mw_ths 3 ((!) ([5, 8, 5] @ replicate 25 9)) 2) = 0
   \<and> th1_obj_min_diff (th1_loop False mw_ths 3 ((!) ([5, 8, 5] @ replicate 25 9)) 2) = 2
   \<and> \<bar>([5, 8, 5] @ replicate 25 9) ! 2 - (3::int)\<bar> = 2
   \<and> th1_op_pos (th1_loop False mw_ths 3 ((!) ([5, 8, 5] @ replicate 25 9)) 3) = 2
   \<and> th1_op_pos (th1_loop False mw_ths 3 ((!) ([5, 8, 5] @ replicate 25 9)) (length mw_ths)) = 2"
  by (simp add: th1_eval mw_ths_def)

text \<open>
  C2 (amended). In the TH1 and TH4 sweeps (any non-empty grid, any initial value of
  \<^verbatim>\<open>in_row\<close>) the best position changes at candidate \<open>m\<close> only when the difference of \<open>m\<close> is
  not larger than the best difference so far, differs from the difference of the previous
  candidate, and the repeat counter is below 4. At the end either no candidate was ever
  accepted, and then the position \<open>-1\<close> selects the last grid entry; or the best position \<open>op\<close>
  is followed by exactly \<open>r\<close> candidates with the same difference, \<open>r\<close> is the repeat counter,
  \<open>op + r\<close> lies inside the grid, and the chosen threshold is the one at \<open>op + r\<close>.
\<close>

theorem th1_search_position:
  assumes "ths \<noteq> []"
  shows "(\<forall>m<length ths.
            th1_op_pos (th1_loop b ths nl cnt (Suc m)) \<noteq> th1_op_pos (th1_loop b ths nl cnt m) \<longrightarrow>
              \<bar>cnt m - nl\<bar> \<le> th1_obj_min_diff (th1_loop b ths nl cnt m)
            \<and> \<bar>cnt m - nl\<bar> \<noteq> th1_last (th1_loop b ths nl cnt m)
            \<and> th1_repeat_count (th1_loop b ths nl cnt m) < 4
            \<and> th1_op_pos (th1_loop b ths nl cnt (Suc m)) = int m)
     \<and> (\<exists>s. (th1_op_pos s = - 1 \<and> th1_repeat_count s = 0
              \<and> th1_search b ths nl cnt = Inr (s, last ths))
           \<or> (\<exists>op r. op + r < length ths
                 \<and> th1_op_pos s = int op \<and> th1_repeat_count s = int r \<and> th1_min s = ths ! op
                 \<and> (\<forall>j. op \<le> j \<and> j \<le> op + r \<longrightarrow> \<bar>cnt j - nl\<bar> = \<bar>cnt op - nl\<bar>)
                 \<and> (Suc (op + r) < length ths \<longrightarrow> \<bar>cnt (Suc (op + r)) - nl\<bar> \<noteq> \<bar>cnt op - nl\<bar>)
                 \<and> th1_search b ths nl cnt = Inr (s, ths ! (op + r))))"
proof -
  have first: "\<forall>m<length ths.
            th1_op_pos (th1_loop b ths nl cnt (Suc m)) \<noteq> th1_op_pos (th1_loop b ths nl cnt m) \<longrightarrow>
              \<bar>cnt m - nl\<bar> \<le> th1_obj_min_diff (th1_loop b ths nl cnt m)
            \<and> \<bar>cnt m - nl\<bar> \<noteq> th1_last (th1_loop b ths nl cnt m)
            \<and> th1_repeat_count (th1_loop b ths nl cnt m) < 4
            \<and> th1_op_pos (th1_loop b ths nl cnt (Suc m)) = int m"
  proof (intro allI impI)
    fix m assume "m < length ths"
      and ch: "th1_op_pos (th1_loop b ths nl cnt (Suc m)) \<noteq> th1_op_pos (th1_loop b ths nl cnt m)"
    from ch have "th1_op_pos (th1_body ths nl cnt (th1_loop b ths nl cnt m) m)
        \<noteq> th1_op_pos (th1_loop b ths nl cnt m)"
      by (simp add: th1_loop_Suc)
    from th1_body_moves_best[OF this]
    show "\<bar>cnt m - nl\<bar> \<le> th1_obj_min_diff (th1_loop b ths nl cnt m)
        \<and> \<bar>cnt m - nl\<bar> \<noteq> th1_last (th1_loop b ths nl cnt m)
        \<and> th1_repeat_count (th1_loop b ths nl cnt m) < 4
        \<and> th1_op_pos (th1_loop b ths nl cnt (Suc m)) = int m"
      by (simp add: th1_accepts_def th1_loop_Suc)
  qed
  obtain m where m: "length ths = Suc m" using assms by (cases ths) auto
  let ?s = "th1_loop b ths nl cnt (length ths)"
  have inv: "th1_inv ths nl cnt m ?s" unfolding m by (rule th1_loop_inv)
  then consider "th1_none ?s" | op r where "th1_run ths nl cnt m ?s op r"
    unfolding th1_inv_def by blast
  then have second: "\<exists>s. (th1_op_pos s = - 1 \<and> th1_repeat_count s = 0
              \<and> th1_search b ths nl cnt = Inr (s, last ths))
           \<or> (\<exists>op r. op + r < length ths
                 \<and> th1_op_pos s = int op \<and> th1_repeat_count s = int r \<and> th1_min s = ths ! op
                 \<and> (\<forall>j. op \<le> j \<and> j \<le> op + r \<longrightarrow> \<bar>cnt j - nl\<bar> = \<bar>cnt op - nl\<bar>)
                 \<and> (Suc (op + r) < length ths \<longrightarrow> \<bar>cnt (Suc (op + r)) - nl\<bar> \<noteq> \<bar>cnt op - nl\<bar>)
                 \<and> th1_search b ths nl cnt = Inr (s, ths ! (op + r)))"
  proof cases
    case 1
    have "th1_op_pos ?s = - 1 \<and> th1_repeat_count ?s = 0
        \<and> th1_search b ths nl cnt = Inr (?s, last ths)"
      using 1 th1_search_none[OF assms 1] by (simp add: th1_none_def)
    then show ?thesis by blast
  next
    case 2
    have f: "th1_op_pos ?s = int op" "th1_repeat_count ?s = int r" "op + r \<le> m"
      "th1_min ?s = ths ! op" "same_diff nl cnt op r"
      using 2 by (simp_all add: th1_run_def)
    have g: "Suc (op + r) < length ths \<longrightarrow> \<bar>cnt (Suc (op + r)) - nl\<bar> \<noteq> \<bar>cnt op - nl\<bar>"
      using 2 m by (cases "in_row ?s") (simp_all add: th1_run_def)
    have h: "\<forall>j. op \<le> j \<and> j \<le> op + r \<longrightarrow> \<bar>cnt j - nl\<bar> = \<bar>cnt op - nl\<bar>"
      using f(5) unfolding same_diff_def .
    have "op + r < length ths" using f(3) m by simp
    with f(1,2,4) g h th1_search_some[OF 2 m]
    have "\<exists>op r. op + r < length ths
                 \<and> th1_op_pos ?s = int op \<and> th1_repeat_count ?s = int r \<and> th1_min ?s = ths ! op
                 \<and> (\<forall>j. op \<le> j \<and> j \<le> op + r \<longrightarrow> \<bar>cnt j - nl\<bar> = \<bar>cnt op - nl\<bar>)
                 \<and> (Suc (op + r) < length ths \<longrightarrow> \<bar>cnt (Suc (op + r)) - nl\<bar> \<noteq> \<bar>cnt op - nl\<bar>)
                 \<and> th1_search b ths nl cnt = Inr (?s, ths ! (op + r))"
      by blast
    then show ?thesis by blast
  qed
  from first second show ?thesis by (rule conjI)
qed

theorem th1_search_position_witness:
  "[1/10, 2/10, 3/10, 4/10, 5/10, 6/10 :: real] \<noteq> []
   \<and> (\<exists>s. (th1_op_pos s = - 1 \<and> th1_repeat_count s = 0
          \<and> th1_search False [1/10, 2/10, 3/10, 4/10, 5/10, 6/10] 3 ((!) [5, 4, 3, 3, 3, 6])
              = Inr (s, last [1/10, 2/10, 3/10, 4/10, 5/10, 6/10]))
        \<or> (\<exists>op r. op + r < length [1/10, 2/10, 3/10, 4/10, 5/10, 6/10 :: real]
              \<and> th1_op_pos s = int op \<and> th1_repeat_count s = int r
              \<and> th1_min s = [1/10, 2/10, 3/10, 4/10, 5/10, 6/10] ! op
              \<and> th1_search False [1/10, 2/10, 3/10, 4/10, 5/10, 6/10] 3 ((!) [5, 4, 3, 3, 3, 6])
                  = Inr (s, [1/10, 2/10, 3/10, 4/10, 5/10, 6/10] ! (op + r))))"
proof -
  have h1: "[1/10, 2/10, 3/10, 4/10, 5/10, 6/10 :: real] \<noteq> []" by simp
  from th1_search_position[OF h1, of False 3 "(!) [5, 4, 3, 3, 3, 6]"]
  have "\<exists>s. (th1_op_pos s = - 1 \<and> th1_repeat_count s = 0
          \<and> th1_search False [1/10, 2/10, 3/10, 4/10, 5/10, 6/10] 3 ((!) [5, 4, 3, 3, 3, 6])
              = Inr (s, last [1/10, 2/10, 3/10, 4/10, 5/10, 6/10]))
        \<or> (\<exists>op r. op + r < length [1/10, 2/10, 3/10, 4/10, 5/10, 6/10 :: real]
              \<and> th1_op_pos s = int op \<and> th1_repeat_count s = int r
              \<and> th1_min s = [1/10, 2/10, 3/10, 4/10, 5/10, 6/10] ! op
              \<and> th1_search False [1/10, 2/10, 3/10, 4/10, 5/10, 6/10] 3 ((!) [5, 4, 3, 3, 3, 6])
                  = Inr (s, [1/10, 2/10, 3/10, 4/10, 5/10, 6/10] ! (op + r)))"
    by blast
  with h1 show ?thesis by (rule conjI)
qed



subsection \<open>\<^verbatim>\<open>remove_close_points\<close>: kept points are separated\<close>

lemma map_err_Inr:
  "map_err f xs = Inr ys \<Longrightarrow> length ys = length xs \<and> (\<forall>i<length xs. f (xs ! i) = Inr (ys ! i))"
proof (induction xs arbitrary: ys)
  case Nil
  then show ?case by simp
next
  case (Cons x xs)
  from Cons.prems obtain y zs where y: "f x = Inr y" and zs: "map_err f xs = Inr zs"
    and ys: "ys = y # zs"
    by (auto simp: bind_err_def split: sum.splits)
  from Cons.IH[OF zs] have ih: "length zs = length xs" "\<forall>i<length xs. f (xs ! i) = Inr (zs ! i)"
    by auto
  show ?case
  proof (intro conjI allI impI)
    show "length ys = length (x # xs)" using ys ih(1) by simp
    fix i assume "i < length (x # xs)"
    then show "f ((x # xs) ! i) = Inr (ys ! i)"
      using y ys ih(2) by (cases i) auto
  qed
qed

lemma neighbors_get_add:
  "neighbors_get (add_neighbor i j nb) k = (if k = i then insert j (neighbors_get nb i) else neighbors_get nb k)"
  by (auto simp: neighbors_get_def add_neighbor_def split: option.splits)

lemma neighbors_get_build:
  "b \<in> neighbors_get (build_neighbors pairs nb) a \<longleftrightarrow>
     b \<in> neighbors_get nb a \<or> (a, b) \<in> set pairs \<or> (b, a) \<in> set pairs"
proof (induction pairs nb rule: build_neighbors.induct)
  case (1 nb)
  show ?case by simp
next
  case (2 i j pairs nb)
  show ?case
    unfolding build_neighbors.simps "2.IH"
    by (auto simp: neighbors_get_add)
qed

lemma sqdist_nonneg: "0 \<le> sqdist p q"
  unfolding sqdist_def by (rule sum_list_nonneg) auto

lemma within_radius_euclid: "within_radius r p q \<longleftrightarrow> euclid p q \<le> r"
proof -
  have e: "euclid p q = sqrt (sqdist p q)" by (simp add: euclid_def sqdist_def)
  have n: "0 \<le> euclid p q" unfolding e using sqdist_nonneg by simp
  show ?thesis
  proof (cases "0 \<le> r")
    case True
    then have "sqrt (sqdist p q) \<le> r \<longleftrightarrow> sqdist p q \<le> r\<^sup>2"
      using sqdist_nonneg[of p q] by (metis real_sqrt_le_iff real_sqrt_abs abs_of_nonneg)
    then show ?thesis using True by (simp add: within_radius_def e)
  next
    case False
    then show ?thesis using n by (simp add: within_radius_def)
  qed
qed

lemma query_pairs_iff:
  "(i, j) \<in> set (query_pairs pts r) \<longleftrightarrow> i < j \<and> j < length pts \<and> euclid (pts ! i) (pts ! j) \<le> r"
  by (force simp: query_pairs_def within_radius_euclid)

lemma euclid_sym: "euclid p q = euclid q p"
proof -
  have "map2 (\<lambda>a b. (a - b)\<^sup>2) p q = map2 (\<lambda>a b. (a - b)\<^sup>2) q p"
  proof (induction p arbitrary: q)
    case Nil
    show ?case by simp
  next
    case (Cons a p)
    show ?case by (cases q) (simp_all add: Cons.IH power2_commute)
  qed
  then show ?thesis by (simp add: euclid_def)
qed

lemma apart_snoc:
  assumes "apart nb keep" and "\<forall>k\<in>set keep. node \<notin> neighbors_get nb k"
  shows "apart nb (keep @ [node])"
  unfolding apart_def
proof (intro allI impI)
  fix a b assume a: "a < length (keep @ [node])" and b: "b < length (keep @ [node])" and ab: "a < b"
  have al: "a < length keep" using ab b by simp
  show "(keep @ [node]) ! b \<notin> neighbors_get nb ((keep @ [node]) ! a)"
  proof (cases "b < length keep")
    case True
    then show ?thesis using assms(1) al ab by (simp add: apart_def nth_append)
  next
    case False
    then have "b = length keep" using b by simp
    then show ?thesis using assms(2) al by (simp add: nth_append)
  qed
qed

lemma keep_loop_inv:
  assumes "apart nb keep" and "\<forall>k\<in>set keep. neighbors_get nb k \<subseteq> discard"
    and "distinct (keep @ positions)"
  shows "apart nb (fst (keep_loop nb positions (keep, discard)))
       \<and> distinct (fst (keep_loop nb positions (keep, discard)))
       \<and> set (fst (keep_loop nb positions (keep, discard))) \<subseteq> set keep \<union> set positions"
  using assms
proof (induction positions arbitrary: keep discard)
  case Nil
  then show ?case by simp
next
  case (Cons node positions)
  show ?case
  proof (cases "node \<in> discard")
    case True
    have "distinct (keep @ positions)" using Cons.prems(3) by simp
    from Cons.IH[OF Cons.prems(1,2) this] True show ?thesis by auto
  next
    case False
    have 1: "apart nb (keep @ [node])"
      using Cons.prems(1,2) False by (intro apart_snoc) auto
    have 2: "\<forall>k\<in>set (keep @ [node]). neighbors_get nb k \<subseteq> discard \<union> neighbors_get nb node"
      using Cons.prems(2) by auto
    have 3: "distinct ((keep @ [node]) @ positions)" using Cons.prems(3) by simp
    from Cons.IH[OF 1 2 3] False show ?thesis by auto
  qed
qed

text \<open>
  C10. Whenever \<^verbatim>\<open>remove_close_points\<close> returns, any two different entries of the
  returned list are more than \<open>radius\<close> apart in the resolution-scaled Euclidean distance
  (the distance the tree is built on).
\<close>

theorem remove_close_points_separated:
  assumes "remove_close_points points radius resolution classes ndim = Inr (out, cls)"
  shows "\<forall>a<length out. \<forall>b<length out. a \<noteq> b \<longrightarrow>
           radius < euclid (scaled ndim resolution (out ! a)) (scaled ndim resolution (out ! b))"
proof -
  from assms obtain mynumbers where mn: "map_err (scale_point ndim resolution) points = Inr mynumbers"
    by (auto simp: remove_close_points_def bind_err_def split: sum.splits)
  from map_err_Inr[OF mn] have len: "length mynumbers = length points"
    and sc: "\<forall>i<length points. scale_point ndim resolution (points ! i) = Inr (mynumbers ! i)"
    by auto
  have sc': "\<And>i. i < length points \<Longrightarrow> mynumbers ! i = scaled ndim resolution (points ! i)"
  proof -
    fix i assume "i < length points"
    then have "scale_point ndim resolution (points ! i) = Inr (mynumbers ! i)" using sc by simp
    then show "mynumbers ! i = scaled ndim resolution (points ! i)"
      by (auto simp: scale_point_def Let_def split: if_splits)
  qed
  show ?thesis
  proof (cases "length mynumbers = 0")
    case True
    then have "out = []" using assms mn by (simp add: remove_close_points_def bind_err_def)
    then show ?thesis by simp
  next
    case False
    define nb where "nb = build_neighbors (query_pairs mynumbers radius) Map.empty"
    define keep where "keep = fst (keep_loop nb [0..<length points] ([], {}))"
    have out: "out = map (\<lambda>i. points ! i) keep"
      using assms mn False
      by (auto simp: remove_close_points_def bind_err_def Let_def nb_def keep_def
          split: option.splits sum.splits)
    have "apart nb [] \<and> (\<forall>k\<in>set []. neighbors_get nb k \<subseteq> {}) \<and> distinct ([] @ [0..<length points])"
      by (simp add: apart_def)
    then have inv: "apart nb keep" "distinct keep" "set keep \<subseteq> set [0..<length points]"
      using keep_loop_inv[of nb "[]" "{}" "[0..<length points]"] by (auto simp: keep_def)
    show ?thesis
    proof (intro allI impI)
      fix a b assume a: "a < length out" and b: "b < length out" and ab: "a \<noteq> b"
      have ka: "a < length keep" and kb: "b < length keep" using a b out by simp_all
      let ?i = "keep ! a" and ?j = "keep ! b"
      have ij: "?i \<noteq> ?j" using inv(2) ka kb ab by (simp add: nth_eq_iff_index_eq)
      have ia: "?i < length points" and jb: "?j < length points"
        using inv(3) ka kb by (auto simp: subset_iff)
      have nn: "?j \<notin> neighbors_get nb ?i \<or> ?i \<notin> neighbors_get nb ?j"
        using inv(1) ka kb ab unfolding apart_def by (metis nat_neq_iff)
      have notpair: "(?i, ?j) \<notin> set (query_pairs mynumbers radius)
          \<and> (?j, ?i) \<notin> set (query_pairs mynumbers radius)"
        using nn unfolding nb_def neighbors_get_build by auto
      have far: "radius < euclid (mynumbers ! ?i) (mynumbers ! ?j)"
      proof (cases "?i < ?j")
        case True
        then show ?thesis using notpair jb len by (simp add: query_pairs_iff)
      next
        case False
        then have "?j < ?i" using ij by simp
        then have "radius < euclid (mynumbers ! ?j) (mynumbers ! ?i)"
          using notpair ia len by (simp add: query_pairs_iff)
        then show ?thesis by (simp add: euclid_sym)
      qed
      show "radius < euclid (scaled ndim resolution (out ! a)) (scaled ndim resolution (out ! b))"
        using far sc'[OF ia] sc'[OF jb] out ka kb by simp
    qed
  qed
qed

theorem remove_close_points_separated_witness:
  "remove_close_points [[0, 0, 0], [1, 0, 0], [10, 0, 0]] 2 [1, 1, 1] (None :: nat list option) 3
     = Inr ([[0, 0, 0], [10, 0, 0]], None)
   \<and> 2 < euclid (scaled 3 [1, 1, 1] ([[0, 0, 0], [10, 0, 0]] ! 0))
               (scaled 3 [1, 1, 1] ([[0, 0, 0], [10, 0, 0]] ! 1))"
proof -
  have h: "remove_close_points [[0, 0, 0], [1, 0, 0], [10, 0, 0]] 2 [1, 1, 1]
             (None :: nat list option) 3 = Inr ([[0, 0, 0], [10, 0, 0]], None)"
    by (simp add: remove_close_points_def bind_err_def scale_point_def scaled_def query_pairs_def
        within_radius_def sqdist_def add_neighbor_def neighbors_get_def Let_def upt_rec)
  have "(0::nat) < length [[0, 0, 0], [10, 0, 0::real]]"
    and "(1::nat) < length [[0, 0, 0], [10, 0, 0::real]]" and "(0::nat) \<noteq> 1"
    by simp_all
  with remove_close_points_separated[OF h]
  have "2 < euclid (scaled 3 [1, 1, 1] ([[0, 0, 0], [10, 0, 0]] ! 0))
                   (scaled 3 [1, 1, 1] ([[0, 0, 0], [10, 0, 0]] ! 1))"
    by blast
  with h show ?thesis by (rule conjI)
qed

subsection \<open>Circularity filter\<close>

lemma bind_err_not:
  assumes "m \<noteq> Inl e" and "\<And>x. f x \<noteq> Inl e"
  shows "bind_err m f \<noteq> Inl e"
  using assms by (cases m) (auto simp: bind_err_def)

lemma for_err_not:
  assumes "\<And>x s. body x s \<noteq> Inl e"
  shows "for_err xs body s \<noteq> Inl e"
proof (induction xs arbitrary: s)
  case Nil
  show ?case by simp
next
  case (Cons x xs)
  show ?case unfolding for_err.simps by (rule bind_err_not[OF assms Cons.IH])
qed


lemma if_not:
  assumes "c \<Longrightarrow> a \<noteq> Inl e" and "\<not> c \<Longrightarrow> b \<noteq> Inl e"
  shows "(if c then a else b) \<noteq> Inl e"
  using assms by simp

lemma circularity_total:
  "circularity area perimeter
     = Inr (if perimeter \<noteq> 0 then 4 * pi * area / (perimeter * perimeter) else 0)"
  by (simp add: circularity_def py_truediv_def)

lemma mean_circularity_total: "mean_circularity acc cnt = Inr (mean_of acc cnt)"
  by (simp add: mean_circularity_def mean_of_def py_truediv_def unsigned_eq_0_iff)

lemma circularity_not: "circularity area perimeter \<noteq> Inl ZeroDivisionError"
  by (simp add: circularity_total)

lemma mean_circularity_not: "mean_circularity acc cnt \<noteq> Inl ZeroDivisionError"
  by (simp add: mean_circularity_total)

lemma list_index_not: "list_index xs x \<noteq> Inl ZeroDivisionError"
proof (induction xs)
  case Nil
  show ?case by simp
next
  case (Cons y ys)
  show ?case unfolding list_index.simps
    by (intro if_not bind_err_not Cons) simp_all
qed

lemma item_not: "item xs j \<noteq> Inl ZeroDivisionError"
  by (simp add: item_def)

lemma measure_region_not:
  "measure_region image3d diam_calc lbls i r st \<noteq> Inl ZeroDivisionError"
  unfolding measure_region_def Let_def
  by (intro if_not bind_err_not list_index_not item_not circularity_not) simp_all

lemma measure_slices_not:
  "measure_slices regionprops image3d diam_calc lbls img st \<noteq> Inl ZeroDivisionError"
  unfolding measure_slices_def
  by (intro for_err_not measure_region_not)

lemma filter_instance_not:
  "filter_instance th lbls counts i st \<noteq> Inl ZeroDivisionError"
  unfolding filter_instance_def Let_def
  by (intro if_not bind_err_not item_not mean_circularity_not) simp_all

text \<open>
  C9. A region of perimeter zero gets circularity 0 without a division; neither the
  circularity of a region, nor the mean over the measured slices, nor the whole measuring
  and filtering pass can raise a division by zero, whatever the image and the region
  properties are.
\<close>

theorem circularity_never_divides_by_zero:
  "circularity area 0 = Inr 0
   \<and> circularity area perimeter \<noteq> Inl ZeroDivisionError
   \<and> mean_circularity acc cnt \<noteq> Inl ZeroDivisionError
   \<and> circularity_filter regionprops image3d diam_calc lbls coords comment th img \<noteq> Inl ZeroDivisionError"
proof (intro conjI)
  show "circularity area 0 = Inr 0" by (simp add: circularity_def)
  show "circularity area perimeter \<noteq> Inl ZeroDivisionError" by (simp add: circularity_total)
  show "mean_circularity acc cnt \<noteq> Inl ZeroDivisionError" by (simp add: mean_circularity_total)
  show "circularity_filter regionprops image3d diam_calc lbls coords comment th img \<noteq> Inl ZeroDivisionError"
    unfolding circularity_filter_def Let_def
    by (intro bind_err_not measure_slices_not for_err_not filter_instance_not)
qed









lemma bind_err_Inr:
  "bind_err m f = Inr y \<longleftrightarrow> (\<exists>x. m = Inr x \<and> f x = Inr y)"
  by (cases m) (simp_all add: bind_err_def)



lemma measure_region_measured:
  assumes "list_index lbls (region_label r) = Inr j" and "j < length (coords_list st)"
    and "j < length (circularities st)" and "j < length (circularities_count st)"
    and "coords_list st ! j \<noteq> []" and "hd (coords_list st ! j) = int i"
  shows "\<exists>st'. measure_region True True lbls i r st = Inr st'
      \<and> circularities st' = (circularities st)[j := circularities st ! j
            + (if region_perimeter r \<noteq> 0
               then 4 * pi * region_area r / (region_perimeter r * region_perimeter r) else 0)]
      \<and> circularities_count st' = (circularities_count st)[j := circularities_count st ! j + 1]"
proof -
  obtain c cs where c: "coords_list st ! j = c # cs" using assms(5) by (cases "coords_list st ! j") auto
  then have ci: "c = int i" using assms(6) by simp
  show ?thesis
    unfolding measure_region_def Let_def
    using assms(1-4) c ci
    by (auto simp: bind_err_def item_def circularity_total)
qed

lemma measure_region_skipped:
  assumes "list_index lbls (region_label r) = Inr j" and "j < length (coords_list st)"
    and "coords_list st ! j \<noteq> []" and "hd (coords_list st ! j) \<noteq> int i"
  shows "measure_region True True lbls i r st = Inr st"
proof -
  obtain c cs where c: "coords_list st ! j = c # cs" using assms(3) by (cases "coords_list st ! j") auto
  then have ci: "c \<noteq> int i" using assms(4) by simp
  show ?thesis
    unfolding measure_region_def Let_def
    using assms(1,2) c ci
    by (auto simp: bind_err_def item_def)
qed








subsection \<open>\<^verbatim>\<open>voronoi_on_mask\<close>: what the loop writes\<close>

lemma set_vol_positions: "set (vol_positions vol) = {p. valid_pos vol p}"
  by (force simp: vol_positions_def valid_pos_def)

lemma shape_set_voxel: "map (map length) (set_voxel d p v) = map (map length) d"
proof -
  obtain z y x where p: "p = (z, y, x)" by (cases p) auto
  have row: "map length ((d ! z)[y := (d ! z ! y)[x := v]]) = map length (d ! z)"
  proof (intro nth_equalityI)
    show "length (map length ((d ! z)[y := (d ! z ! y)[x := v]])) = length (map length (d ! z))"
      by simp
    fix i assume "i < length (map length ((d ! z)[y := (d ! z ! y)[x := v]]))"
    then have i: "i < length (d ! z)" by simp
    show "map length ((d ! z)[y := (d ! z ! y)[x := v]]) ! i = map length (d ! z) ! i"
      using i by (cases "i = y") simp_all
  qed
  have "map (map length) (d[z := (d ! z)[y := (d ! z ! y)[x := v]]]) = map (map length) d"
  proof (rule nth_equalityI)
    show "length (map (map length) (d[z := (d ! z)[y := (d ! z ! y)[x := v]]]))
        = length (map (map length) d)"
      by simp
    fix i assume "i < length (map (map length) (d[z := (d ! z)[y := (d ! z ! y)[x := v]]]))"
    then have i: "i < length d" by simp
    show "map (map length) (d[z := (d ! z)[y := (d ! z ! y)[x := v]]]) ! i
        = map (map length) d ! i"
      using i row by (cases "i = z") simp_all
  qed
  then show ?thesis
    unfolding p set_voxel_def by simp
qed

lemma valid_pos_shape:
  assumes "map (map length) a = map (map length) b"
  shows "valid_pos a p = valid_pos b p"
proof -
  obtain z y x where p: "p = (z, y, x)" by (cases p) auto
  have l: "length a = length b" using assms by (metis length_map)
  have r: "\<And>z. z < length a \<Longrightarrow> map length (a ! z) = map length (b ! z)"
    using assms l by (metis nth_map)
  have rl: "\<And>z. z < length a \<Longrightarrow> length (a ! z) = length (b ! z)"
    using r by (metis length_map)
  have c: "\<And>z y. z < length a \<Longrightarrow> y < length (a ! z) \<Longrightarrow> length (a ! z ! y) = length (b ! z ! y)"
    using r rl by (metis nth_map)
  show ?thesis
    unfolding p valid_pos_def using l rl c by auto
qed

lemma voxel_set_voxel:
  assumes "valid_pos d p" and "valid_pos d q"
  shows "voxel (set_voxel d p v) q = (if q = p then v else voxel d q)"
proof -
  obtain z y x where p: "p = (z, y, x)" by (cases p) auto
  obtain z' y' x' where q: "q = (z', y', x')" by (cases q) auto
  show ?thesis
    using assms unfolding p q valid_pos_def set_voxel_def voxel_def
    by (auto simp: nth_list_update)
qed

lemma fold_set_voxel:
  assumes "\<forall>p\<in>set ps. valid_pos d p" and "valid_pos d q"
  shows "voxel (fold (\<lambda>p d. set_voxel d p (f p)) ps d) q
       = (if q \<in> set ps then f q else voxel d q)"
  using assms
proof (induction ps arbitrary: d)
  case Nil
  show ?case by simp
next
  case (Cons p ps)
  let ?d = "set_voxel d p (f p)"
  have sh: "map (map length) ?d = map (map length) d" by (rule shape_set_voxel)
  have v1: "\<forall>r\<in>set ps. valid_pos ?d r"
    using Cons.prems(1) valid_pos_shape[OF sh] by simp
  have v2: "valid_pos ?d q" using Cons.prems(2) valid_pos_shape[OF sh] by simp
  have p: "valid_pos d p" using Cons.prems(1) by simp
  have "voxel (fold (\<lambda>p d. set_voxel d p (f p)) (p # ps) d) q
      = (if q \<in> set ps then f q else voxel ?d q)"
    using Cons.IH[OF v1 v2] by simp
  also have "\<dots> = (if q \<in> set (p # ps) then f q else voxel d q)"
    using voxel_set_voxel[OF p Cons.prems(2)] by auto
  finally show ?case .
qed

lemma shape_fold_set_voxel:
  "map (map length) (fold (\<lambda>p d. set_voxel d p (f p)) ps d) = map (map length) d"
  by (induction ps arbitrary: d) (simp_all add: shape_set_voxel)

text \<open>
  C7. Every voxel of a volume where \<^verbatim>\<open>data > 0\<close> and the cleaned mask disagree is
  overwritten with the position, in the list of centroids of the grouped labels, that the
  nearest-neighbour query returns for it; every other voxel keeps its value. The position is
  not the label of the instance: in the volume with row 0, 0, 0, 7, 0 the last voxel is
  nearest to the centroid of the instance with label 7, which is the second entry of the
  list, and it receives the value 1.
\<close>

theorem voronoi_writes_centroid_position:
  assumes "voronoi_volume query clean th vol mask0 = Inr res"
  shows "(\<forall>p. valid_pos vol p \<longrightarrow>
            voxel res p =
              (if (voxel vol p > 0) \<noteq> voxel (voronoi_mask clean th mask0) p
               then int (query (centroids vol) (pos_coords p))
               else voxel vol p))
       \<and> same_shape res vol
       \<and> group_labels [[[0, 0, 0, 7, 0]]] = [0, 7]
       \<and> centroids [[[0, 0, 0, 7, 0]]] = [[0, 0, 7 / 4], [0, 0, 3]]
       \<and> voronoi_volume first_nearest id (3 / 10) [[[0, 0, 0, 7, 0]]] [[[0, 0, 0, 1, 1]]]
           = Inr [[[0, 0, 0, 7, 1]]]"
proof (intro conjI allI impI)
  let ?vm = "voronoi_mask clean th mask0"
  let ?ps = "pos_not_labelled_points vol ?vm"
  let ?f = "\<lambda>p. int (query (centroids vol) (pos_coords p))"
  from assms have sh: "same_shape vol ?vm"
    and res: "res = fold (\<lambda>p d. set_voxel d p (?f p)) ?ps vol"
    by (auto simp: voronoi_volume_def Let_def split: if_splits)
  have v: "\<forall>p\<in>set ?ps. valid_pos vol p"
    by (simp add: pos_not_labelled_points_def set_vol_positions)
  show "same_shape res vol"
    unfolding res same_shape_def by (rule shape_fold_set_voxel)
  fix p assume p: "valid_pos vol p"
  have "voxel res p = (if p \<in> set ?ps then ?f p else voxel vol p)"
    unfolding res by (rule fold_set_voxel[OF v p])
  moreover have "p \<in> set ?ps \<longleftrightarrow> (voxel vol p > 0) \<noteq> voxel ?vm p"
    using p by (simp add: pos_not_labelled_points_def set_vol_positions)
  ultimately show "voxel res p =
              (if (voxel vol p > 0) \<noteq> voxel ?vm p then ?f p else voxel vol p)"
    by simp
next
  show "group_labels [[[0, 0, 0, 7, 0]]] = [0, 7]"
    by (simp add: group_labels_def vol_positions_def voxel_def upt_rec)
  show "centroids [[[0, 0, 0, 7, 0]]] = [[0, 0, 7 / 4], [0, 0, 3]]"
    by (simp add: centroids_def centroid_def group_labels_def vol_positions_def voxel_def pos_coords_def
        upt_rec Let_def)
  show "voronoi_volume first_nearest id (3 / 10) [[[0, 0, 0, 7, 0]]] [[[0, 0, 0, 1, 1]]]
           = Inr [[[0, 0, 0, 7, 1]]]"
    by (simp add: voronoi_volume_def voronoi_mask_def same_shape_def pos_not_labelled_points_def
        centroids_def centroid_def group_labels_def vol_positions_def voxel_def pos_coords_def
        set_voxel_def sq_dist_def upt_rec Let_def power2_eq_square)
qed

theorem voronoi_writes_centroid_position_witness:
  "voronoi_volume first_nearest id (3 / 10) [[[0, 0, 0, 7, 0]]] [[[0, 0, 0, 1, 1]]]
     = Inr [[[0, 0, 0, 7, 1]]]
   \<and> voxel [[[0, 0, 0, 7, 1]]] (0, 0, 4)
       = int (first_nearest (centroids [[[0, 0, 0, 7, 0]]]) (pos_coords (0, 0, 4)))
   \<and> voxel [[[0, 0, 0, 7, 1]]] (0, 0, 3) = voxel [[[0, 0, 0, 7, 0::int]]] (0, 0, 3)"
proof -
  have h: "voronoi_volume first_nearest id (3 / 10) [[[0, 0, 0, 7, 0]]] [[[0, 0, 0, 1, 1]]]
     = Inr [[[0, 0, 0, 7, 1]]]"
    by (simp add: voronoi_volume_def voronoi_mask_def same_shape_def pos_not_labelled_points_def
        centroids_def centroid_def group_labels_def vol_positions_def voxel_def pos_coords_def
        set_voxel_def sq_dist_def upt_rec Let_def power2_eq_square)
  have v4: "valid_pos [[[0, 0, 0, 7, 0::int]]] (0, 0, 4)"
    and v3: "valid_pos [[[0, 0, 0, 7, 0::int]]] (0, 0, 3)"
    by (simp_all add: valid_pos_def)
  have c4: "(voxel [[[0, 0, 0, 7, 0::int]]] (0, 0, 4) > 0)
      \<noteq> voxel (voronoi_mask id (3 / 10) [[[0, 0, 0, 1, 1]]]) (0, 0, 4)"
    by (simp add: voxel_def voronoi_mask_def)
  have c3: "\<not> ((voxel [[[0, 0, 0, 7, 0::int]]] (0, 0, 3) > 0)
      \<noteq> voxel (voronoi_mask id (3 / 10) [[[0, 0, 0, 1, 1]]]) (0, 0, 3))"
    by (simp add: voxel_def voronoi_mask_def)
  from voronoi_writes_centroid_position[OF h]
  have all: "\<forall>p. valid_pos [[[0, 0, 0, 7, 0::int]]] p \<longrightarrow>
            voxel [[[0, 0, 0, 7, 1]]] p =
              (if (voxel [[[0, 0, 0, 7, 0::int]]] p > 0)
                    \<noteq> voxel (voronoi_mask id (3 / 10) [[[0, 0, 0, 1, 1]]]) p
               then int (first_nearest (centroids [[[0, 0, 0, 7, 0]]]) (pos_coords p))
               else voxel [[[0, 0, 0, 7, 0]]] p)"
    by blast
  from all v4 c4 have r4: "voxel [[[0, 0, 0, 7, 1]]] (0, 0, 4)
       = int (first_nearest (centroids [[[0, 0, 0, 7, 0]]]) (pos_coords (0, 0, 4)))"
    by (metis (full_types))
  from all v3 c3 have r3: "voxel [[[0, 0, 0, 7, 1]]] (0, 0, 3) = voxel [[[0, 0, 0, 7, 0::int]]] (0, 0, 3)"
    by (metis (full_types))
  from h r4 r3 show ?thesis by blast
qed

lemma astype_zero:
  assumes "v < length row" and "row ! v = 0"
  shows "astype t row ! v = 0"
  using assms by (simp add: astype_def)

lemma removal_keeps_zero:
  assumes "removal_only_clears lib" and "s < length a" and "v < length (a ! s)" and "a ! s ! v = 0"
  shows "lib_remove_small_objects lib a n ! s ! v = 0"
  using assms unfolding removal_only_clears_def by blast

lemma removal_shape:
  assumes "removal_only_clears lib"
  shows "map length (lib_remove_small_objects lib a n) = map length a"
  using assms unfolding removal_only_clears_def by blast

lemma watershed_zero:
  assumes "watershed_respects_mask lib" and "s < length m" and "v < length (m ! s)" and "\<not> m ! s ! v"
  shows "lib_watershed lib surface seeds (Some m) ! s ! v = 0"
  using assms unfolding watershed_respects_mask_def by blast

lemma watershed_shape:
  assumes "watershed_respects_mask lib"
  shows "map length (lib_watershed lib surface seeds (Some m)) = map length m"
  using assms unfolding watershed_respects_mask_def by blast

lemma shape_nth:
  assumes "map length a = map length b"
  shows "length a = length b" and "s < length b \<Longrightarrow> length (a ! s) = length (b ! s)"
proof -
  show l: "length a = length b" using assms by (metis length_map)
  assume "s < length b"
  then show "length (a ! s) = length (b ! s)" using assms l by (metis nth_map)
qed

text \<open>
  C3. Provided the library's watershed labels only voxels of the mask it is given and the
  removal of small objects only clears voxels, the segmentation returned by
  \<^verbatim>\<open>watershed_by_channels\<close> has the shape of the foreground mask the function built and is 0
  at every voxel where that mask is false. Without foreground morphology the mask of the
  layouts \<^verbatim>\<open>BC\<close>, \<^verbatim>\<open>BCM\<close> and \<^verbatim>\<open>BP\<close> is the first channel thresholded at \<^verbatim>\<open>TH3\<close>.
\<close>

theorem watershed_keeps_background_outside_foreground:
  assumes "watershed_respects_mask lib" and "removal_only_clears lib"
    and "ws_inputs lib opts data chs ths = Inr (semantic, seed_map, Some fg)"
    and "watershed_by_channels lib opts data chs ths = Inr (t, segm)"
  shows "map length segm = map length fg
       \<and> (\<forall>s<length fg. \<forall>v<length (fg ! s). \<not> fg ! s ! v \<longrightarrow> segm ! s ! v = 0)
       \<and> ((chs = BC \<or> chs = BCM \<or> chs = BP) \<and> seed_morph_sequence opts = []
            \<and> \<not> erode_and_dilate_foreground opts \<longrightarrow>
            (\<exists>d0 th3. channel data 0 = Inr d0 \<and> th_get ths ''TH3'' = Inr th3
                \<and> fg = map (map (\<lambda>x. x > th3)) d0))"
proof (intro conjI)
  define seeds where "seeds = (if remove_before opts
                       then lib_remove_small_objects lib seed_map (thres_small_before opts)
                       else seed_map)"
  define segm0 where "segm0 = lib_watershed lib (map (map uminus) semantic) seeds (Some fg)"
  define segm1 where "segm1 = (if remove_after opts
                   then lib_remove_small_objects lib segm0 (thres_small_after opts)
                   else segm0)"
  from assms(4) have res: "segm = map (astype t) segm1"
    unfolding watershed_by_channels_def assms(3)
    by (auto simp: bind_err_Inr Let_def seeds_def segm0_def segm1_def)
  have sh0: "map length segm0 = map length fg"
    unfolding segm0_def by (rule watershed_shape[OF assms(1)])
  have sh1: "map length segm1 = map length fg"
    unfolding segm1_def using sh0 removal_shape[OF assms(2)] by simp
  show sh: "map length segm = map length fg"
    unfolding res using sh1 by (simp add: astype_def comp_def)
  show "\<forall>s<length fg. \<forall>v<length (fg ! s). \<not> fg ! s ! v \<longrightarrow> segm ! s ! v = 0"
  proof (intro allI impI)
    fix s v assume s: "s < length fg" and v: "v < length (fg ! s)" and out: "\<not> fg ! s ! v"
    have z0: "segm0 ! s ! v = 0"
      unfolding segm0_def by (rule watershed_zero[OF assms(1) s v out])
    have l0: "s < length segm0" "v < length (segm0 ! s)"
      using shape_nth[OF sh0] s v by simp_all
    have z1: "segm1 ! s ! v = 0"
      unfolding segm1_def using z0 removal_keeps_zero[OF assms(2) l0 z0] by simp
    have l1: "s < length segm1" "v < length (segm1 ! s)"
      using shape_nth[OF sh1] s v by simp_all
    show "segm ! s ! v = 0"
      unfolding res using l1 z1 by (simp add: astype_zero)
  qed
  show "(chs = BC \<or> chs = BCM \<or> chs = BP) \<and> seed_morph_sequence opts = []
            \<and> \<not> erode_and_dilate_foreground opts \<longrightarrow>
            (\<exists>d0 th3. channel data 0 = Inr d0 \<and> th_get ths ''TH3'' = Inr th3
                \<and> fg = map (map (\<lambda>x. x > th3)) d0)"
    using assms(3) unfolding ws_inputs_def maybe_erode_def gt_vol_def
    by (auto simp: bind_err_Inr)
qed

theorem watershed_keeps_background_outside_foreground_witness:
  "watershed_respects_mask toy_lib \<and> removal_only_clears toy_lib
   \<and> ws_inputs toy_lib plain_options [[[9/10, 1/10], [2/10, 1/10]]] BC
        [''TH1'' \<mapsto> 1/2, ''TH2'' \<mapsto> 1/2, ''TH3'' \<mapsto> 1/2]
       = Inr ([[1, 0]], [[1, 0]], Some [[True, False]])
   \<and> watershed_by_channels toy_lib plain_options [[[9/10, 1/10], [2/10, 1/10]]] BC
        [''TH1'' \<mapsto> 1/2, ''TH2'' \<mapsto> 1/2, ''TH3'' \<mapsto> 1/2]
       = Inr (UInt8, [[1, 0]])
   \<and> [[1, 0::int]] ! 0 ! 1 = 0"
proof -
  have w: "watershed_respects_mask toy_lib"
    by (simp add: watershed_respects_mask_def toy_lib_def comp_def)
  have r: "removal_only_clears toy_lib"
    by (simp add: removal_only_clears_def toy_lib_def)
  have i: "ws_inputs toy_lib plain_options [[[9/10, 1/10], [2/10, 1/10]]] BC
        [''TH1'' \<mapsto> 1/2, ''TH2'' \<mapsto> 1/2, ''TH3'' \<mapsto> 1/2]
       = Inr ([[1, 0]], [[1, 0]], Some [[True, False]])"
    by (simp add: ws_inputs_def toy_lib_def plain_options_def channel_def th_get_def bind_err_def
        maybe_erode_def and_vol_def gt_vol_def lt_vol_def)
  have o: "watershed_by_channels toy_lib plain_options [[[9/10, 1/10], [2/10, 1/10]]] BC
        [''TH1'' \<mapsto> 1/2, ''TH2'' \<mapsto> 1/2, ''TH3'' \<mapsto> 1/2]
       = Inr (UInt8, [[1, 0]])"
    unfolding watershed_by_channels_def i
    by (simp add: toy_lib_def plain_options_def bind_err_def np_max_def choose_dtype_def
        astype_def dtype_bits_def Let_def)
  have "(0::nat) < length [[True, False]]" and "(1::nat) < length ([[True, False]] ! 0)"
    and "\<not> [[True, False]] ! 0 ! 1"
    by simp_all
  with watershed_keeps_background_outside_foreground[OF w r i o]
  have "[[1, 0::int]] ! 0 ! 1 = 0" by blast
  with w r i o show ?thesis by blast
qed

section \<open>Test-time augmentation: the round trip\<close>

subsection \<open>Arrays given by their entries\<close>






subsection \<open>The operations on arrays given by their entries\<close>



































subsection \<open>Undoing the combinations\<close>








subsection \<open>Stacking the combinations and merging the channels\<close>






subsection \<open>Padding to a square and taking the padding off\<close>






subsection \<open>The combinations of a channel with its last axis added\<close>









subsection \<open>The sixteen combinations of a volume\<close>




subsection \<open>The round trip of \<^verbatim>\<open>ensemble8_2d_predictions\<close>\<close>











subsection \<open>The round trip of \<^verbatim>\<open>ensemble16_3d_predictions\<close>\<close>






subsection \<open>Exact quarter turns are undone\<close>




end
